theory Spec2Isabelle
  imports Complex_Main "HOL-Library.AList"
begin

section \<open>Python values\<close>

text \<open>
  The values that \<^verbatim>\<open>response.json()\<close> produces. A Python \<^verbatim>\<open>dict\<close> keeps its keys
  in insertion order, so it is an association list; its keys are pairwise distinct
  (\<open>dict_wf\<close>). Strings are byte lists; the only slice the program takes compares the
  first five characters with the ASCII word \<^verbatim>\<open>field\<close>, which reads the same on bytes
  and on code points. A float is carried, never computed on.
\<close>

datatype json =
    JNull
  | JBool bool
  | JInt int
  | JFloat real
  | JStr string
  | JList "json list"
  | JObj "(string \<times> json) list"

type_synonym dict = "(string \<times> json) list"

datatype error =
    TypeError
  | KeyError string
  | AttributeError
  | ConnectionError
  | HTTPError nat
  | JSONDecodeError
  | GoogleAPIError

definition dict_wf :: "dict \<Rightarrow> bool" where
  "dict_wf d = distinct (map fst d)"

text \<open>\<^verbatim>\<open>d[k] = v\<close>: an existing key keeps its place, a new key goes to the end.\<close>

definition setitem :: "string \<Rightarrow> json \<Rightarrow> dict \<Rightarrow> dict" where
  "setitem k v d = AList.update k v d"

text \<open>A dict comprehension \<^verbatim>\<open>{k: v for k, v in kvs}\<close> inserts the pairs in order.\<close>

definition dict_of_items :: "(string \<times> json) list \<Rightarrow> dict" where
  "dict_of_items kvs = fold (\<lambda>(k, v). setitem k v) kvs []"

text \<open>The display \<^verbatim>\<open>{**a, **b, **c}\<close> inserts the items of a, then of b, then of c.\<close>

definition dict_unpack :: "dict list \<Rightarrow> dict" where
  "dict_unpack ds = dict_of_items (concat ds)"

text \<open>\<^verbatim>\<open>obj[key]\<close> with a string key: only a dict can be subscripted by a string.\<close>

definition getitem :: "json \<Rightarrow> string \<Rightarrow> error + json" where
  "getitem obj key =
     (case obj of
        JObj d \<Rightarrow> (case map_of d key of None \<Rightarrow> Inl (KeyError key) | Some v \<Rightarrow> Inr v)
      | _ \<Rightarrow> Inl TypeError)"

text \<open>\<^verbatim>\<open>obj.items()\<close>: only a dict has the method.\<close>

definition items :: "json \<Rightarrow> error + (string \<times> json) list" where
  "items obj = (case obj of JObj d \<Rightarrow> Inr d | _ \<Rightarrow> Inl AttributeError)"

text \<open>\<^verbatim>\<open>**obj\<close> inside a dict display: the operand must be a mapping.\<close>

definition mapping_of :: "json \<Rightarrow> error + dict" where
  "mapping_of obj = (case obj of JObj d \<Rightarrow> Inr d | _ \<Rightarrow> Inl TypeError)"

text \<open>
  \<^verbatim>\<open>for x in obj\<close>: a list yields its elements, a dict its keys, a string its
  characters; nothing else is iterable. Keys and characters are strings, so the
  program, which unpacks every element as a mapping, raises on the first of them
  however the characters are counted.
\<close>

definition iterate :: "json \<Rightarrow> error + json list" where
  "iterate obj =
     (case obj of
        JList xs \<Rightarrow> Inr xs
      | JObj d \<Rightarrow> Inr (map (\<lambda>(k, v). JStr k) d)
      | JStr s \<Rightarrow> Inr (map (\<lambda>c. JStr [c]) s)
      | _ \<Rightarrow> Inl TypeError)"

section \<open>ThingSpeak: the credential set\<close>

record ThingSpeak =
  primary_id_a :: json
  primary_key_a :: json
  primary_id_b :: json
  primary_key_b :: json
  secondary_id_a :: json
  secondary_key_a :: json
  secondary_id_b :: json
  secondary_key_b :: json

text \<open>\<^verbatim>\<open>signature(ThingSpeak).parameters\<close>: the dataclass fields, in declaration order.\<close>

definition parameters :: "string list" where
  "parameters =
     [''primary_id_a'', ''primary_key_a'', ''primary_id_b'', ''primary_key_b'',
      ''secondary_id_a'', ''secondary_key_a'', ''secondary_id_b'', ''secondary_key_b'']"

text \<open>
  The \<^verbatim>\<open>__init__\<close> that \<^verbatim>\<open>@dataclass\<close> generates, called with keyword arguments:
  every field is required, an unknown keyword is refused, and the annotations
  \<^verbatim>\<open>int\<close> and \<^verbatim>\<open>str\<close> are not checked, so a field holds whatever value it is given.
\<close>

definition init :: "dict \<Rightarrow> error + ThingSpeak" where
  "init kwargs =
     (if list_all (\<lambda>k. map_of kwargs k \<noteq> None) parameters
         \<and> list_all (\<lambda>(k, v). k \<in> set parameters) kwargs
      then Inr \<lparr>primary_id_a = the (map_of kwargs ''primary_id_a''),
                primary_key_a = the (map_of kwargs ''primary_key_a''),
                primary_id_b = the (map_of kwargs ''primary_id_b''),
                primary_key_b = the (map_of kwargs ''primary_key_b''),
                secondary_id_a = the (map_of kwargs ''secondary_id_a''),
                secondary_key_a = the (map_of kwargs ''secondary_key_a''),
                secondary_id_b = the (map_of kwargs ''secondary_id_b''),
                secondary_key_b = the (map_of kwargs ''secondary_key_b'')\<rparr>
      else Inl TypeError)"

definition from_dict :: "json \<Rightarrow> error + ThingSpeak" where
  "from_dict input =
     (case items input of
        Inl e \<Rightarrow> Inl e
      | Inr kvs \<Rightarrow> init (dict_of_items (filter (\<lambda>(k, v). k \<in> set parameters) kvs)))"

definition id_key_pairs :: "ThingSpeak \<Rightarrow> (json \<times> json) list" where
  "id_key_pairs self =
     [(primary_id_a self, primary_key_a self),
      (secondary_id_a self, secondary_key_a self),
      (primary_id_b self, primary_key_b self),
      (secondary_id_b self, secondary_key_b self)]"

section \<open>The transformation of one channel response\<close>

text \<open>Line 55: \<^verbatim>\<open>{f"{k}_name": v for k, v in channel.items() if k[:5] == "field"}\<close>.\<close>

definition field_names :: "(string \<times> json) list \<Rightarrow> dict" where
  "field_names kvs =
     dict_of_items (map (\<lambda>(k, v). (k @ ''_name'', v))
                        (filter (\<lambda>(k, v). take 5 k = ''field'') kvs))"

text \<open>Line 59: one merged record per feed, the first feed that is no mapping raises.\<close>

fun merge_feeds :: "dict \<Rightarrow> dict \<Rightarrow> json list \<Rightarrow> error + dict list" where
  "merge_feeds channel_name fnames [] = Inr []"
| "merge_feeds channel_name fnames (feed # rest) =
     (case mapping_of feed of
        Inl e \<Rightarrow> Inl e
      | Inr f \<Rightarrow>
          (case merge_feeds channel_name fnames rest of
             Inl e \<Rightarrow> Inl e
           | Inr rs \<Rightarrow> Inr (dict_unpack [channel_name, fnames, f] # rs)))"

text \<open>Lines 55 to 59 of \<^verbatim>\<open>get_feed\<close>, on the parsed response.\<close>

definition feed_records :: "json \<Rightarrow> error + dict list" where
  "feed_records response =
     (case getitem response ''channel'' of
        Inl e \<Rightarrow> Inl e
      | Inr channel \<Rightarrow>
          (case items channel of
             Inl e \<Rightarrow> Inl e
           | Inr kvs \<Rightarrow>
               (case getitem channel ''name'' of
                  Inl e \<Rightarrow> Inl e
                | Inr name \<Rightarrow>
                    (case getitem response ''feeds'' of
                       Inl e \<Rightarrow> Inl e
                     | Inr fs \<Rightarrow>
                         (case iterate fs of
                            Inl e \<Rightarrow> Inl e
                          | Inr feeds \<Rightarrow>
                              merge_feeds [(''name'', name)] (field_names kvs) feeds)))))"

section \<open>The world outside the program\<close>

text \<open>
  What \<^verbatim>\<open>requests.get\<close> does: it raises, or it returns a response with a status code
  and a body; the body is given parsed, \<open>None\<close> when it is not JSON.
\<close>

datatype http_outcome =
    Raises error
  | Response nat "json option"

text \<open>
  The environment of one run: the value of the variable \<^verbatim>\<open>PURPLE_API_KEY\<close>, the
  network (what the n-th request of the run, sent to a URL, comes back with),
  Python's \<^verbatim>\<open>str\<close> as the f-string of \<^verbatim>\<open>urls\<close> applies it to an id or a key, and the
  warehouse (whether the client can be built, and what the load job of a batch ends
  with).
\<close>

record world =
  PURPLE_API_KEY :: "string option"
  net :: "nat \<Rightarrow> string \<Rightarrow> http_outcome"
  str :: "json \<Rightarrow> string"
  bq_client :: "error option"
  bq_load :: "dict list \<Rightarrow> error option"

text \<open>
  What a run has done so far: the number of requests sent, the debug entries written
  with \<^verbatim>\<open>logger.debug\<close>, the delays slept between attempts, and the batches handed to
  the warehouse.
\<close>

record state =
  reqs :: nat
  debug_log :: "string list"
  slept :: "nat list"
  loaded :: "dict list list"

definition debug :: "string \<Rightarrow> state \<Rightarrow> state" where
  "debug msg st = st\<lparr>debug_log := debug_log st @ [msg]\<rparr>"

definition sleep :: "nat \<Rightarrow> state \<Rightarrow> state" where
  "sleep d st = st\<lparr>slept := slept st @ [d]\<rparr>"

definition requests_get :: "world \<Rightarrow> string \<Rightarrow> state \<Rightarrow> http_outcome \<times> state" where
  "requests_get w url st = (net w (reqs st) url, st\<lparr>reqs := Suc (reqs st)\<rparr>)"

text \<open>\<^verbatim>\<open>response.raise_for_status()\<close> raises on a 4xx or 5xx status code.\<close>

definition raise_for_status :: "nat \<Rightarrow> error option" where
  "raise_for_status status =
     (if 400 \<le> status \<and> status < 600 then Some (HTTPError status) else None)"

text \<open>\<^verbatim>\<open>response.json()\<close>.\<close>

definition response_json :: "json option \<Rightarrow> error + json" where
  "response_json body = (case body of None \<Rightarrow> Inl JSONDecodeError | Some v \<Rightarrow> Inr v)"

section \<open>The retry decorator\<close>

text \<open>
  Modelled from the spec: the decorator \<^verbatim>\<open>retry\<close> comes from the package of that name,
  which is not part of the repository. Section 4.1: the operation is attempted up to
  \<open>tries\<close> times in all; the first retry follows a delay of \<open>delay\<close>, every later
  delay is the one before multiplied by \<open>backoff\<close>; when all attempts fail, the error
  of the last one goes to the caller. \<^verbatim>\<open>Exception\<close> as the first argument makes every
  error of the model one that is retried. Each attempt runs the whole decorated
  function. The program only uses \<open>tries = 3\<close>; \<open>tries \<le> 1\<close> is one attempt here.
\<close>

fun retry ::
  "nat \<Rightarrow> nat \<Rightarrow> nat \<Rightarrow> (state \<Rightarrow> (error + 'a) \<times> state) \<Rightarrow> state \<Rightarrow> (error + 'a) \<times> state"
where
  "retry tries delay backoff f st =
     (case f st of
        (Inr v, st') \<Rightarrow> (Inr v, st')
      | (Inl e, st') \<Rightarrow>
          if tries \<le> 1 then (Inl e, st')
          else retry (tries - 1) (delay * backoff) backoff f (sleep delay st'))"

declare retry.simps [simp del]

section \<open>The channel feed client\<close>

definition base_url :: string where
  "base_url = ''https://api.thingspeak.com/channels''"

text \<open>Line 44: \<^verbatim>\<open>f"{base_url}/{id}/feeds.json?api_key={key}"\<close>.\<close>

definition feed_url :: "world \<Rightarrow> json \<Rightarrow> json \<Rightarrow> string" where
  "feed_url w cid key = base_url @ ''/'' @ str w cid @ ''/feeds.json?api_key='' @ str w key"

definition urls :: "world \<Rightarrow> ThingSpeak \<Rightarrow> string list" where
  "urls w self = map (\<lambda>(cid, key). feed_url w cid key) (id_key_pairs self)"

text \<open>The body of \<^verbatim>\<open>get_feed\<close>, lines 50 to 62: one attempt.\<close>

definition get_feed_body :: "world \<Rightarrow> string \<Rightarrow> state \<Rightarrow> (error + dict list) \<times> state" where
  "get_feed_body w url st =
     (let st1 = debug ''Fetching feeds from ThingSpeak API'' st;
          (outcome, st2) = requests_get w (url @ ''&days=3'') st1
      in case outcome of
           Raises e \<Rightarrow> (Inl e, st2)
         | Response status body \<Rightarrow>
             (case raise_for_status status of
                Some e \<Rightarrow> (Inl e, st2)
              | None \<Rightarrow>
                  (case response_json body of
                     Inl e \<Rightarrow> (Inl e, st2)
                   | Inr response \<Rightarrow>
                       (case feed_records response of
                          Inl e \<Rightarrow> (Inl e, st2)
                        | Inr feeds \<Rightarrow>
                            (Inr feeds,
                             debug ''Successfully retreived feeds from ThingSpeak'' st2)))))"

definition get_feed :: "world \<Rightarrow> string \<Rightarrow> state \<Rightarrow> (error + dict list) \<times> state" where
  "get_feed w url = retry 3 1 5 (get_feed_body w url)"

text \<open>
  Line 66, \<^verbatim>\<open>[feed for url in urls for feed in self.get_feed(url)]\<close>: the URLs are
  fetched one after the other, and an error of a fetch ends the comprehension.
\<close>

fun collect_feeds :: "world \<Rightarrow> string list \<Rightarrow> state \<Rightarrow> (error + dict list) \<times> state" where
  "collect_feeds w [] st = (Inr [], st)"
| "collect_feeds w (url # rest) st =
     (case get_feed w url st of
        (Inl e, st') \<Rightarrow> (Inl e, st')
      | (Inr fs, st') \<Rightarrow>
          (case collect_feeds w rest st' of
             (Inl e, st'') \<Rightarrow> (Inl e, st'')
           | (Inr gs, st'') \<Rightarrow> (Inr (fs @ gs), st'')))"

definition feeds :: "world \<Rightarrow> ThingSpeak \<Rightarrow> state \<Rightarrow> (error + dict list) \<times> state" where
  "feeds w self st = collect_feeds w (urls w self) st"

section \<open>The sensor registry client\<close>

text \<open>The f-string of line 74 writes an unset variable as \<^verbatim>\<open>None\<close>.\<close>

definition purple_url :: "world \<Rightarrow> string" where
  "purple_url w =
     ''https://api.purpleair.com/v1/sensors/20957?api_key=''
       @ (case PURPLE_API_KEY w of None \<Rightarrow> ''None'' | Some k \<Rightarrow> k)"

text \<open>The body of \<^verbatim>\<open>get_keys_from_purple\<close>, lines 71 to 79: one attempt.\<close>

definition get_keys_from_purple_body :: "world \<Rightarrow> state \<Rightarrow> (error + json) \<times> state" where
  "get_keys_from_purple_body w st =
     (let st1 = debug ''Fetching ThingSpeak keys from Purple API'' st;
          (outcome, st2) = requests_get w (purple_url w) st1
      in case outcome of
           Raises e \<Rightarrow> (Inl e, st2)
         | Response status body \<Rightarrow>
             (case raise_for_status status of
                Some e \<Rightarrow> (Inl e, st2)
              | None \<Rightarrow>
                  (let st3 = debug ''Successfully retreived ThingSpeak keys'' st2
                   in case response_json body of
                        Inl e \<Rightarrow> (Inl e, st3)
                      | Inr response \<Rightarrow>
                          (case getitem response ''sensor'' of
                             Inl e \<Rightarrow> (Inl e, st3)
                           | Inr sensor \<Rightarrow> (Inr sensor, st3)))))"

definition get_keys_from_purple :: "world \<Rightarrow> state \<Rightarrow> (error + json) \<times> state" where
  "get_keys_from_purple w = retry 3 1 5 (get_keys_from_purple_body w)"

section \<open>The pipeline\<close>

definition "extract" :: "world \<Rightarrow> state \<Rightarrow> (error + dict list) \<times> state" where
  "extract w st =
     (case get_keys_from_purple w st of
        (Inl e, st') \<Rightarrow> (Inl e, st')
      | (Inr purple_air_response, st') \<Rightarrow>
          (case from_dict purple_air_response of
             Inl e \<Rightarrow> (Inl e, st')
           | Inr thingspeak \<Rightarrow> feeds w thingspeak st'))"

definition destination :: string where
  "destination = ''databuildtool.air_quality.raw_thingspeak''"

definition load :: "world \<Rightarrow> dict list \<Rightarrow> state \<Rightarrow> (error + unit) \<times> state" where
  "load w data st =
     (let st1 = debug ''Connecting to BigQuery'' st
      in case bq_client w of
           Some e \<Rightarrow> (Inl e, st1)
         | None \<Rightarrow>
             (let st2 = debug ''Connected to BigQuery Successfully'' st1;
                  st3 = st2\<lparr>loaded := loaded st2 @ [data]\<rparr>
              in case bq_load w data of
                   Some e \<Rightarrow> (Inl e, st3)
                 | None \<Rightarrow>
                     (Inr (),
                      debug (''Loaded into BigQuery '' @ destination @ '' successfully'') st3)))"

text \<open>\<^verbatim>\<open>str(n)\<close> of a length: its decimal digits.\<close>

fun digits :: "nat \<Rightarrow> string" where
  "digits n =
     (if n < 10 then [''0123456789'' ! n]
      else digits (n div 10) @ [''0123456789'' ! (n mod 10)])"

declare digits.simps [simp del]

definition main :: "world \<Rightarrow> state \<Rightarrow> (error + string) \<times> state" where
  "main w st =
     (case extract w st of
        (Inl e, st') \<Rightarrow> (Inl e, st')
      | (Inr extracted, st') \<Rightarrow>
          (let st1 = debug (''Extracted '' @ digits (length extracted) @ '' feeds successfully'') st'
           in case load w extracted st1 of
                (Inl e, st2) \<Rightarrow> (Inl e, st2)
              | (Inr u, st2) \<Rightarrow> (Inr ''Success'', st2)))"

section \<open>Example inputs\<close>

text \<open>A registry answer with two fields the program does not ask for.\<close>

definition sensor_example :: dict where
  "sensor_example =
     [(''sensor_index'', JInt 20957),
      (''primary_id_a'', JInt 101), (''primary_key_a'', JStr ''KA1''),
      (''primary_id_b'', JInt 102), (''primary_key_b'', JStr ''KB1''),
      (''name'', JStr ''Porch''),
      (''secondary_id_a'', JInt 201), (''secondary_key_a'', JStr ''KA2''),
      (''secondary_id_b'', JInt 202), (''secondary_key_b'', JStr ''KB2'')]"

text \<open>All eight names, four of them with a value that is no integer id or no non-empty key.\<close>

definition sensor_mistyped :: dict where
  "sensor_mistyped =
     [(''primary_id_a'', JStr ''one''), (''primary_key_a'', JStr []),
      (''primary_id_b'', JNull), (''primary_key_b'', JInt 7),
      (''secondary_id_a'', JInt 201), (''secondary_key_a'', JStr ''KA2''),
      (''secondary_id_b'', JInt 202), (''secondary_key_b'', JStr ''KB2'')]"

text \<open>The channel answer of the specification's example.\<close>

definition channel_example :: json where
  "channel_example =
     JObj [(''channel'', JObj [(''name'', JStr ''X''), (''field1'', JStr ''PM2.5'')]),
           (''feeds'', JList [JObj [(''entry_id'', JInt 1), (''field1'', JStr ''12'')]])]"

text \<open>A reading that brings its own \<^verbatim>\<open>name\<close> and \<^verbatim>\<open>field1_name\<close>.\<close>

definition channel_collision :: json where
  "channel_collision =
     JObj [(''channel'', JObj [(''name'', JStr ''X''), (''field1'', JStr ''PM2.5'')]),
           (''feeds'', JList [JObj [(''entry_id'', JInt 1), (''field1'', JStr ''12'')],
                               JObj [(''field1_name'', JStr ''mine''), (''name'', JStr ''N''),
                                     (''entry_id'', JInt 3)]])]"

text \<open>A channel whose metadata has keys that start with \<^verbatim>\<open>field\<close> and carry no number.\<close>

definition channel_odd_fields :: dict where
  "channel_odd_fields =
     [(''name'', JStr ''X''), (''field'', JStr ''a''), (''fieldset'', JStr ''b''),
      (''field1'', JStr ''PM2.5''), (''id'', JInt 7)]"

text \<open>Python's \<^verbatim>\<open>str\<close> on integers and strings, which is all the examples format.\<close>

definition str_example :: "json \<Rightarrow> string" where
  "str_example v =
     (case v of
        JInt i \<Rightarrow> (if i < 0 then ''-'' @ digits (nat (- i)) else digits (nat i))
      | JStr s \<Rightarrow> s
      | _ \<Rightarrow> ''None'')"

text \<open>A channel with two readings, and a channel with none in the window.\<close>

definition channel_two_feeds :: json where
  "channel_two_feeds =
     JObj [(''channel'', JObj [(''name'', JStr ''Y''), (''field2'', JStr ''Humidity'')]),
           (''feeds'', JList [JObj [(''entry_id'', JInt 1), (''field2'', JStr ''40'')],
                               JObj [(''entry_id'', JInt 2), (''field2'', JStr ''41'')]])]"

definition channel_no_feeds :: json where
  "channel_no_feeds =
     JObj [(''channel'', JObj [(''name'', JStr ''Z'')]), (''feeds'', JList [])]"

text \<open>
  Two servers that answer every request: the registry, and the channel API, which
  knows channels 201 and 102 and gives the specification's example for any other.
\<close>

definition api_example :: "string \<Rightarrow> http_outcome" where
  "api_example url =
     (if take 25 url = ''https://api.purpleair.com''
      then Response 200 (Some (JObj [(''api_version'', JStr ''V1''), (''sensor'', JObj sensor_example)]))
      else if take 40 url = ''https://api.thingspeak.com/channels/201/''
      then Response 200 (Some channel_two_feeds)
      else if take 40 url = ''https://api.thingspeak.com/channels/102/''
      then Response 200 (Some channel_no_feeds)
      else Response 200 (Some channel_example))"

definition net_example :: "nat \<Rightarrow> string \<Rightarrow> http_outcome" where
  "net_example n url = api_example url"

text \<open>The first two requests of the run fail, every later one is answered.\<close>

definition net_flaky :: "nat \<Rightarrow> string \<Rightarrow> http_outcome" where
  "net_flaky n url = (if n < 2 then Raises ConnectionError else api_example url)"

text \<open>
  Requests 3, 4 and 5 of the run, the three attempts at the third channel, are answered
  with status 503.
\<close>

definition net_third_channel_down :: "nat \<Rightarrow> string \<Rightarrow> http_outcome" where
  "net_third_channel_down n url =
     (if 3 \<le> n \<and> n \<le> 5 then Response 503 None else api_example url)"

text \<open>
  The registry answers the first request of the run with status 200 and a body that has
  no \<^verbatim>\<open>sensor\<close> field; every later request is answered.
\<close>

definition net_registry_late :: "nat \<Rightarrow> string \<Rightarrow> http_outcome" where
  "net_registry_late n url =
     (if n = 0 then Response 200 (Some (JObj [(''api_version'', JStr ''V1'')]))
      else api_example url)"

text \<open>The registry answers with a sensor that lacks \<^verbatim>\<open>primary_id_a\<close>.\<close>

definition net_registry_incomplete :: "nat \<Rightarrow> string \<Rightarrow> http_outcome" where
  "net_registry_incomplete n url =
     Response 200 (Some (JObj [(''sensor'', JObj (tl sensor_mistyped))]))"

definition world_example :: "(nat \<Rightarrow> string \<Rightarrow> http_outcome) \<Rightarrow> world" where
  "world_example network =
     \<lparr>PURPLE_API_KEY = Some ''KEY'', net = network, str = str_example,
      bq_client = None, bq_load = (\<lambda>batch. None)\<rparr>"

text \<open>Every request is answered, and the load job of the warehouse fails.\<close>

definition world_load_fails :: world where
  "world_load_fails =
     \<lparr>PURPLE_API_KEY = Some ''KEY'', net = net_example, str = str_example,
      bq_client = None, bq_load = (\<lambda>batch. Some GoogleAPIError)\<rparr>"

text \<open>The state a run starts in.\<close>

definition start :: state where
  "start = \<lparr>reqs = 0, debug_log = [], slept = [], loaded = []\<rparr>"

text \<open>The credential set of \<open>sensor_example\<close> and the records of the example channels.\<close>

definition thingspeak_example :: ThingSpeak where
  "thingspeak_example =
     \<lparr>primary_id_a = JInt 101, primary_key_a = JStr ''KA1'',
      primary_id_b = JInt 102, primary_key_b = JStr ''KB1'',
      secondary_id_a = JInt 201, secondary_key_a = JStr ''KA2'',
      secondary_id_b = JInt 202, secondary_key_b = JStr ''KB2''\<rparr>"

definition record_x :: dict where
  "record_x =
     [(''name'', JStr ''X''), (''field1_name'', JStr ''PM2.5''),
      (''entry_id'', JInt 1), (''field1'', JStr ''12'')]"

definition records_y :: "dict list" where
  "records_y =
     [[(''name'', JStr ''Y''), (''field2_name'', JStr ''Humidity''),
       (''entry_id'', JInt 1), (''field2'', JStr ''40'')],
      [(''name'', JStr ''Y''), (''field2_name'', JStr ''Humidity''),
       (''entry_id'', JInt 2), (''field2'', JStr ''41'')]]"

section \<open>Properties of dictionaries\<close>

text \<open>Inserting pairs with distinct keys into an empty dict keeps them as they come.\<close>

lemma setitem_fresh: "k \<notin> fst ` set d \<Longrightarrow> setitem k v d = d @ [(k, v)]"
  unfolding setitem_def by (induction d) auto

lemma fold_setitem_distinct:
  "distinct (map fst (acc @ kvs)) \<Longrightarrow> fold (\<lambda>(k, v). setitem k v) kvs acc = acc @ kvs"
proof (induction kvs arbitrary: acc)
  case Nil
  then show ?case by simp
next
  case (Cons p kvs)
  obtain k v where p: "p = (k, v)" by (cases p)
  from Cons.prems have fresh: "k \<notin> fst ` set acc" by (auto simp: p)
  from Cons.prems have "distinct (map fst ((acc @ [(k, v)]) @ kvs))" by (simp add: p)
  from Cons.IH [OF this] show ?case by (simp add: p setitem_fresh [OF fresh])
qed

lemma dict_of_items_wf: "dict_wf kvs \<Longrightarrow> dict_of_items kvs = kvs"
  unfolding dict_wf_def dict_of_items_def using fold_setitem_distinct [of "[]" kvs] by simp

text \<open>In general the last value inserted under a key is the one found.\<close>

lemma map_of_fold_setitem:
  "map_of (fold (\<lambda>(k, v). setitem k v) kvs acc) = map_of acc ++ map_of (rev kvs)"
proof (induction kvs arbitrary: acc)
  case Nil
  then show ?case by simp
next
  case (Cons p kvs)
  obtain k v where p: "p = (k, v)" by (cases p)
  have "map_of (fold (\<lambda>(k, v). setitem k v) (p # kvs) acc)
          = map_of (fold (\<lambda>(k, v). setitem k v) kvs (setitem k v acc))"
    by (simp add: p)
  also have "\<dots> = map_of (setitem k v acc) ++ map_of (rev kvs)"
    by (rule Cons.IH)
  also have "\<dots> = map_of acc ++ map_of (rev (p # kvs))"
    by (auto simp: p setitem_def update_conv' fun_eq_iff map_add_def split: option.splits)
  finally show ?case .
qed

lemma map_of_dict_of_items: "map_of (dict_of_items kvs) = map_of (rev kvs)"
  unfolding dict_of_items_def by (simp add: map_of_fold_setitem)

lemma keys_fold_setitem:
  "distinct (map fst acc) \<Longrightarrow> distinct (map fst (fold (\<lambda>(k, v). setitem k v) kvs acc))"
  by (induction kvs arbitrary: acc) (auto simp: setitem_def distinct_update)

lemma dict_of_items_is_dict: "dict_wf (dict_of_items kvs)"
  unfolding dict_wf_def dict_of_items_def by (rule keys_fold_setitem) simp

lemma map_of_rev_wf: "dict_wf d \<Longrightarrow> map_of (rev d) = map_of d"
  unfolding dict_wf_def
  by (subst map_of_inject_set) (simp_all add: rev_map [symmetric])

lemma map_of_dict_unpack:
  assumes "dict_wf a" and "dict_wf b" and "dict_wf c"
  shows "map_of (dict_unpack [a, b, c]) = map_of a ++ map_of b ++ map_of c"
  by (simp add: dict_unpack_def map_of_dict_of_items map_of_rev_wf assms)

section \<open>Properties of credential resolution\<close>

lemma map_of_filter_parameters:
  "map_of (filter (\<lambda>(k, v). k \<in> S) d) k = (if k \<in> S then map_of d k else None)"
  by (induction d) auto

lemma init_ok:
  assumes "\<forall>k \<in> set parameters. map_of kw k \<noteq> None"
    and "fst ` set kw \<subseteq> set parameters"
  shows "init kw =
     Inr \<lparr>primary_id_a = the (map_of kw ''primary_id_a''),
                primary_key_a = the (map_of kw ''primary_key_a''),
                primary_id_b = the (map_of kw ''primary_id_b''),
                primary_key_b = the (map_of kw ''primary_key_b''),
                secondary_id_a = the (map_of kw ''secondary_id_a''),
                secondary_key_a = the (map_of kw ''secondary_key_a''),
                secondary_id_b = the (map_of kw ''secondary_id_b''),
                secondary_key_b = the (map_of kw ''secondary_key_b'')\<rparr>"
proof -
  have a: "list_all (\<lambda>k. map_of kw k \<noteq> None) parameters"
    using assms(1) by (simp add: list_all_iff)
  have b: "list_all (\<lambda>(k, v). k \<in> set parameters) kw"
    using assms(2) by (auto simp: list_all_iff)
  show ?thesis unfolding init_def using a b by simp
qed

lemma init_fails:
  assumes "k \<in> set parameters" and "map_of kw k = None"
  shows "init kw = Inl TypeError"
proof -
  have "\<not> list_all (\<lambda>k. map_of kw k \<noteq> None) parameters"
    using assms by (auto simp: list_all_iff)
  then show ?thesis unfolding init_def by simp
qed

lemma from_dict_JObj:
  "from_dict (JObj d) = init (dict_of_items (filter (\<lambda>(k, v). k \<in> set parameters) d))"
  by (simp add: from_dict_def items_def)

text \<open>
  Claim C1. A registry answer is a dict; when it holds the eight credential fields,
  \<open>from_dict\<close> builds the credential set whose eight fields are the eight values
  found under those names. Keys beyond the eight have no effect: the result is the one
  obtained from the dict with every other key removed.
\<close>

theorem from_dict_extracts_fields:
  assumes "dict_wf d"
    and "map_of d ''primary_id_a'' = Some ia"
    and "map_of d ''primary_key_a'' = Some ka"
    and "map_of d ''primary_id_b'' = Some ib"
    and "map_of d ''primary_key_b'' = Some kb"
    and "map_of d ''secondary_id_a'' = Some sia"
    and "map_of d ''secondary_key_a'' = Some ska"
    and "map_of d ''secondary_id_b'' = Some sib"
    and "map_of d ''secondary_key_b'' = Some skb"
  shows "from_dict (JObj d) =
           Inr \<lparr>primary_id_a = ia, primary_key_a = ka, primary_id_b = ib, primary_key_b = kb,
                secondary_id_a = sia, secondary_key_a = ska,
                secondary_id_b = sib, secondary_key_b = skb\<rparr>
         \<and> from_dict (JObj d) = from_dict (JObj (filter (\<lambda>(k, v). k \<in> set parameters) d))"
proof -
  let ?kw = "filter (\<lambda>(k, v). k \<in> set parameters) d"
  have wf: "dict_wf ?kw"
    using assms(1) unfolding dict_wf_def by (rule distinct_map_filter)
  have kw: "dict_of_items ?kw = ?kw"
    using wf by (rule dict_of_items_wf)
  have look: "map_of ?kw k = (if k \<in> set parameters then map_of d k else None)" for k
    by (rule map_of_filter_parameters)
  have present: "\<forall>k \<in> set parameters. map_of ?kw k \<noteq> None"
    using assms(2-9) by (simp add: look) (simp add: parameters_def)
  have known: "fst ` set ?kw \<subseteq> set parameters"
    by auto
  have "init ?kw =
           Inr \<lparr>primary_id_a = ia, primary_key_a = ka, primary_id_b = ib, primary_key_b = kb,
                secondary_id_a = sia, secondary_key_a = ska,
                secondary_id_b = sib, secondary_key_b = skb\<rparr>"
    unfolding init_ok [OF present known] look using assms(2-9)
    by (simp add: parameters_def)
  moreover have "filter (\<lambda>(k, v). k \<in> set parameters) ?kw = ?kw"
    by simp
  ultimately show ?thesis
    by (simp add: from_dict_JObj kw)
qed

theorem from_dict_extracts_fields_witness:
  "dict_wf sensor_example \<and>
   from_dict (JObj sensor_example) =
     Inr \<lparr>primary_id_a = JInt 101, primary_key_a = JStr ''KA1'',
          primary_id_b = JInt 102, primary_key_b = JStr ''KB1'',
          secondary_id_a = JInt 201, secondary_key_a = JStr ''KA2'',
          secondary_id_b = JInt 202, secondary_key_b = JStr ''KB2''\<rparr>"
proof -
  have wf: "dict_wf sensor_example"
    by (simp add: sensor_example_def dict_wf_def)
  show ?thesis
    using wf from_dict_extracts_fields [of sensor_example "JInt 101" "JStr ''KA1''" "JInt 102"
      "JStr ''KB1''" "JInt 201" "JStr ''KA2''" "JInt 202" "JStr ''KB2''"]
    by (simp add: sensor_example_def)
qed

text \<open>
  Claim C2, as the code has it. The generated constructor checks no type: the eight
  names present with values that are no integer id and no non-empty key still build a
  credential set.
\<close>

theorem from_dict_accepts_mistyped_values:
  "from_dict (JObj sensor_mistyped) =
     Inr \<lparr>primary_id_a = JStr ''one'', primary_key_a = JStr [],
          primary_id_b = JNull, primary_key_b = JInt 7,
          secondary_id_a = JInt 201, secondary_key_a = JStr ''KA2'',
          secondary_id_b = JInt 202, secondary_key_b = JStr ''KB2''\<rparr>"
  by (simp add: sensor_mistyped_def from_dict_def items_def dict_of_items_def setitem_def
      parameters_def init_def)

text \<open>
  Claim C2, amended. On a dict, \<open>from_dict\<close> raises the construction error exactly
  when one of the eight names is absent, and builds a credential set exactly when all
  eight are present, whatever the values are.
\<close>

theorem from_dict_fails_iff_field_absent:
  "(from_dict (JObj d) = Inl TypeError \<longleftrightarrow> (\<exists>k \<in> set parameters. k \<notin> fst ` set d))
   \<and> ((\<exists>self. from_dict (JObj d) = Inr self) \<longleftrightarrow> (\<forall>k \<in> set parameters. k \<in> fst ` set d))"
proof -
  let ?kw = "dict_of_items (filter (\<lambda>(k, v). k \<in> set parameters) d)"
  have look: "map_of ?kw k = None \<longleftrightarrow> k \<notin> set parameters \<or> k \<notin> fst ` set d" for k
    by (auto simp: map_of_dict_of_items map_of_eq_None_iff)
  have known: "fst ` set ?kw \<subseteq> set parameters"
  proof
    fix k assume "k \<in> fst ` set ?kw"
    then have "map_of ?kw k \<noteq> None" by (simp add: map_of_eq_None_iff)
    then show "k \<in> set parameters" using look [of k] by simp
  qed
  show ?thesis
  proof (cases "\<exists>k \<in> set parameters. k \<notin> fst ` set d")
    case True
    then obtain k where k: "k \<in> set parameters" "map_of ?kw k = None"
      using look by auto
    from init_fails [OF k] True show ?thesis
      by (auto simp: from_dict_JObj)
  next
    case False
    then have "\<forall>k \<in> set parameters. map_of ?kw k \<noteq> None"
      using look by auto
    from init_ok [OF this known] False show ?thesis
      by (auto simp: from_dict_JObj)
  qed
qed

theorem from_dict_fails_iff_field_absent_witness:
  "from_dict (JObj (tl sensor_mistyped)) = Inl TypeError \<and>
   (\<exists>self. from_dict (JObj sensor_example) = Inr self)"
  using from_dict_fails_iff_field_absent [of "tl sensor_mistyped"]
    from_dict_fails_iff_field_absent [of sensor_example]
  by (simp add: sensor_mistyped_def sensor_example_def parameters_def)

section \<open>Properties of the channel transformation\<close>

lemma merge_feeds_dicts:
  "merge_feeds cn fn (map JObj ds) = Inr (map (\<lambda>f. dict_unpack [cn, fn, f]) ds)"
  by (induction ds) (simp_all add: mapping_of_def)

lemma merge_feeds_Inr:
  "merge_feeds cn fn fs = Inr recs \<Longrightarrow>
   \<exists>ds. fs = map JObj ds \<and> recs = map (\<lambda>f. dict_unpack [cn, fn, f]) ds"
proof (induction fs arbitrary: recs)
  case Nil
  then show ?case by simp
next
  case (Cons feed rest)
  from Cons.prems obtain f rs where
    f: "feed = JObj f" and rs: "merge_feeds cn fn rest = Inr rs"
    and recs: "recs = dict_unpack [cn, fn, f] # rs"
    by (auto simp: mapping_of_def split: json.splits sum.splits)
  from Cons.IH [OF rs] obtain ds where
    "rest = map JObj ds" "rs = map (\<lambda>f. dict_unpack [cn, fn, f]) ds"
    by blast
  then show ?case
    by (intro exI [of _ "f # ds"]) (simp add: f recs)
qed

lemma field_names_wf: "dict_wf (field_names kvs)"
  unfolding field_names_def by (rule dict_of_items_is_dict)

lemma feed_records_ok:
  assumes "map_of resp ''channel'' = Some (JObj ch)"
    and "map_of ch ''name'' = Some name"
    and "map_of resp ''feeds'' = Some (JList (map JObj fs))"
  shows "feed_records (JObj resp) =
           Inr (map (\<lambda>f. dict_unpack [[(''name'', name)], field_names ch, f]) fs)"
  by (simp add: feed_records_def getitem_def items_def iterate_def assms merge_feeds_dicts)

lemma feed_records_Inr:
  assumes "feed_records response = Inr recs"
  obtains ch name js ds where
    "getitem response ''channel'' = Inr (JObj ch)" "map_of ch ''name'' = Some name"
    "getitem response ''feeds'' = Inr js" "iterate js = Inr (map JObj ds)"
    "recs = map (\<lambda>f. dict_unpack [[(''name'', name)], field_names ch, f]) ds"
proof -
  from assms obtain channel where c: "getitem response ''channel'' = Inr channel"
    by (auto simp: feed_records_def split: sum.splits)
  from assms c obtain ch where ch: "channel = JObj ch"
    by (auto simp: feed_records_def items_def split: sum.splits json.splits)
  from assms c ch obtain name where n: "getitem (JObj ch) ''name'' = Inr name"
    by (auto simp: feed_records_def items_def split: sum.splits)
  from assms c ch n obtain js where fs: "getitem response ''feeds'' = Inr js"
    by (auto simp: feed_records_def items_def split: sum.splits)
  from assms c ch n fs obtain elems where it: "iterate js = Inr elems"
    by (auto simp: feed_records_def items_def split: sum.splits)
  from assms c ch n fs it
  have "merge_feeds [(''name'', name)] (field_names ch) elems = Inr recs"
    by (simp add: feed_records_def items_def)
  from merge_feeds_Inr [OF this] obtain ds where
    "elems = map JObj ds"
    "recs = map (\<lambda>f. dict_unpack [[(''name'', name)], field_names ch, f]) ds"
    by blast
  moreover from n have "map_of ch ''name'' = Some name"
    by (auto simp: getitem_def split: option.splits)
  ultimately show ?thesis
    using that c ch fs it by simp
qed

lemma field_names_list:
  assumes "dict_wf ch"
  shows "field_names ch =
           map (\<lambda>(k, v). (k @ ''_name'', v)) (filter (\<lambda>(k, v). take 5 k = ''field'') ch)"
proof -
  let ?sel = "filter (\<lambda>(k, v). take 5 k = ''field'') ch"
  have "distinct (map fst ?sel)"
    using assms unfolding dict_wf_def by (rule distinct_map_filter)
  moreover have "map fst (map (\<lambda>(k, v). (k @ ''_name'', v)) ?sel)
                   = map (\<lambda>k. k @ ''_name'') (map fst ?sel)"
    by (simp add: case_prod_beta)
  ultimately have "dict_wf (map (\<lambda>(k, v). (k @ ''_name'', v)) ?sel)"
    unfolding dict_wf_def by (simp add: distinct_map inj_on_def)
  then show ?thesis
    unfolding field_names_def by (rule dict_of_items_wf)
qed

text \<open>Unfolding the operations on values, for the example inputs.\<close>

lemmas value_simps =
  feed_records_def getitem_def items_def iterate_def mapping_of_def field_names_def
  dict_unpack_def dict_of_items_def setitem_def

text \<open>
  Claim C4. When the transformation of a response succeeds, the record made from a feed
  element is the display of the channel name, the field names and the element, in that
  order; looked up by key, the element's value wins over a field name, which wins over
  the channel name. On the response of the specification's example the one record is
  the one the specification gives.
\<close>

theorem feed_record_is_merge:
  "(feed_records response = Inr recs \<longrightarrow>
      getitem response ''channel'' = Inr (JObj ch) \<longrightarrow>
      map_of ch ''name'' = Some name \<longrightarrow>
      getitem response ''feeds'' = Inr (JList fs) \<longrightarrow>
      i < length fs \<longrightarrow> fs ! i = JObj f \<longrightarrow> dict_wf f \<longrightarrow>
      i < length recs \<and>
      recs ! i = dict_unpack [[(''name'', name)], field_names ch, f] \<and>
      map_of (recs ! i) = [''name'' \<mapsto> name] ++ map_of (field_names ch) ++ map_of f)
   \<and> feed_records channel_example =
        Inr [[(''name'', JStr ''X''), (''field1_name'', JStr ''PM2.5''),
              (''entry_id'', JInt 1), (''field1'', JStr ''12'')]]"
proof (intro conjI impI)
  assume r: "feed_records response = Inr recs"
    and c: "getitem response ''channel'' = Inr (JObj ch)"
    and n: "map_of ch ''name'' = Some name"
    and fs: "getitem response ''feeds'' = Inr (JList fs)"
    and i: "i < length fs" and f: "fs ! i = JObj f" and wf: "dict_wf f"
  let ?cn = "[(''name'', name)]"
  have n': "getitem (JObj ch) ''name'' = Inr name"
    by (simp add: getitem_def n)
  from r have "merge_feeds ?cn (field_names ch) fs = Inr recs"
    by (simp add: feed_records_def c n' fs items_def iterate_def)
  from merge_feeds_Inr [OF this] obtain ds where
    ds: "fs = map JObj ds" "recs = map (\<lambda>f. dict_unpack [?cn, field_names ch, f]) ds"
    by blast
  from ds(1) i f have fi: "ds ! i = f" "i < length ds" by auto
  show "i < length recs" using ds fi by simp
  show ri: "recs ! i = dict_unpack [?cn, field_names ch, f]" using ds fi by simp
  have "dict_wf ?cn" by (simp add: dict_wf_def)
  from map_of_dict_unpack [OF this field_names_wf wf]
  show "map_of (recs ! i) = [''name'' \<mapsto> name] ++ map_of (field_names ch) ++ map_of f"
    by (simp add: ri)
next
  show "feed_records channel_example =
        Inr [[(''name'', JStr ''X''), (''field1_name'', JStr ''PM2.5''),
              (''entry_id'', JInt 1), (''field1'', JStr ''12'')]]"
    by (simp add: channel_example_def value_simps)
qed

theorem feed_record_is_merge_witness:
  "map_of [(''name'', JStr ''N''), (''field1_name'', JStr ''mine''), (''entry_id'', JInt 3)]
     = [''name'' \<mapsto> JStr ''X''] ++ map_of [(''field1_name'', JStr ''PM2.5'')]
         ++ map_of [(''field1_name'', JStr ''mine''), (''name'', JStr ''N''), (''entry_id'', JInt 3)]"
proof -
  let ?ch = "[(''name'', JStr ''X''), (''field1'', JStr ''PM2.5'')]"
  let ?f0 = "[(''entry_id'', JInt 1), (''field1'', JStr ''12'')]"
  let ?f1 = "[(''field1_name'', JStr ''mine''), (''name'', JStr ''N''), (''entry_id'', JInt 3)]"
  let ?recs = "[record_x,
      [(''name'', JStr ''N''), (''field1_name'', JStr ''mine''), (''entry_id'', JInt 3)]]"
  have r: "feed_records channel_collision = Inr ?recs"
    by (simp add: channel_collision_def value_simps record_x_def)
  have c: "getitem channel_collision ''channel'' = Inr (JObj ?ch)"
    by (simp add: channel_collision_def getitem_def)
  have n: "map_of ?ch ''name'' = Some (JStr ''X'')"
    by simp
  have fs: "getitem channel_collision ''feeds'' = Inr (JList [JObj ?f0, JObj ?f1])"
    by (simp add: channel_collision_def getitem_def)
  have i: "(1::nat) < length [JObj ?f0, JObj ?f1]"
    by simp
  have f: "[JObj ?f0, JObj ?f1] ! 1 = JObj ?f1"
    by simp
  have wf: "dict_wf ?f1"
    by (simp add: dict_wf_def)
  have fn: "field_names ?ch = [(''field1_name'', JStr ''PM2.5'')]"
    by (simp add: field_names_def dict_of_items_def setitem_def)
  note merge = feed_record_is_merge [THEN conjunct1, rule_format, OF r c n fs i f wf,
      THEN conjunct2, THEN conjunct2]
  from merge show ?thesis
    unfolding fn by simp
qed

text \<open>
  Claim C5, as the code has it. The test is on the first five characters alone: the
  keys \<^verbatim>\<open>field\<close> and \<^verbatim>\<open>fieldset\<close> of a channel are renamed and kept like
  \<^verbatim>\<open>field1\<close>.
\<close>

theorem field_names_keeps_unnumbered_keys:
  "field_names channel_odd_fields =
     [(''field_name'', JStr ''a''), (''fieldset_name'', JStr ''b''),
      (''field1_name'', JStr ''PM2.5'')]"
  by (simp add: channel_odd_fields_def field_names_def dict_of_items_def setitem_def)

text \<open>
  Claim C5, amended. The field-name mapping of a channel holds exactly the keys of the
  channel whose first five characters are \<^verbatim>\<open>field\<close>, each with \<^verbatim>\<open>_name\<close>
  appended and its value unchanged, in the channel's order.
\<close>

theorem field_names_prefix_check:
  assumes "dict_wf ch"
  shows "field_names ch =
           map (\<lambda>(k, v). (k @ ''_name'', v)) (filter (\<lambda>(k, v). take 5 k = ''field'') ch)
         \<and> (map_of (field_names ch) key = Some v \<longleftrightarrow>
              (\<exists>k. key = k @ ''_name'' \<and> take 5 k = ''field'' \<and> map_of ch k = Some v))"
proof -
  have wf: "distinct (map fst (field_names ch))"
    using field_names_wf [of ch] by (simp add: dict_wf_def)
  have ch: "distinct (map fst ch)"
    using assms by (simp add: dict_wf_def)
  have "map_of (field_names ch) key = Some v \<longleftrightarrow> (key, v) \<in> set (field_names ch)"
    using wf by simp
  also have "\<dots> \<longleftrightarrow> (\<exists>k. key = k @ ''_name'' \<and> take 5 k = ''field'' \<and> (k, v) \<in> set ch)"
    unfolding field_names_list [OF assms] by auto
  also have "\<dots> \<longleftrightarrow> (\<exists>k. key = k @ ''_name'' \<and> take 5 k = ''field'' \<and> map_of ch k = Some v)"
    using ch by simp
  finally show ?thesis
    using field_names_list [OF assms] by simp
qed

theorem field_names_prefix_check_witness:
  "dict_wf [(''name'', JStr ''X''), (''field1'', JStr ''PM2.5'')]
   \<and> field_names [(''name'', JStr ''X''), (''field1'', JStr ''PM2.5'')]
       = [(''field1_name'', JStr ''PM2.5'')]
   \<and> map_of (field_names [(''name'', JStr ''X''), (''field1'', JStr ''PM2.5'')]) ''field1_name''
       = Some (JStr ''PM2.5'')"
proof -
  have wf: "dict_wf [(''name'', JStr ''X''), (''field1'', JStr ''PM2.5'')]"
    by (simp add: dict_wf_def)
  have ex: "\<exists>k. ''field1_name'' = k @ ''_name'' \<and> take 5 k = ''field''
      \<and> map_of [(''name'', JStr ''X''), (''field1'', JStr ''PM2.5'')] k = Some (JStr ''PM2.5'')"
    by (intro exI [of _ "''field1''"]) simp
  from field_names_prefix_check [OF wf, of "''field1_name''" "JStr ''PM2.5''"] wf ex
  show ?thesis by simp
qed

section \<open>Properties of the retried fetches\<close>

lemma retry_last: "tries \<le> 1 \<Longrightarrow> retry tries d b f st = f st"
  by (subst retry.simps) (simp split: prod.splits sum.splits)

lemma retry_step:
  "1 < tries \<Longrightarrow>
   retry tries d b f st =
     (case f st of
        (Inr v, st') \<Rightarrow> (Inr v, st')
      | (Inl e, st') \<Rightarrow> retry (tries - 1) (d * b) b f (sleep d st'))"
  by (subst retry.simps) (simp split: prod.splits sum.splits)

lemma retry_3:
  "retry 3 d b f st =
     (case f st of
        (Inr v, s1) \<Rightarrow> (Inr v, s1)
      | (Inl e1, s1) \<Rightarrow>
          (case f (sleep d s1) of
             (Inr v, s2) \<Rightarrow> (Inr v, s2)
           | (Inl e2, s2) \<Rightarrow> f (sleep (d * b) s2)))"
  by (simp add: retry_step retry_last split: prod.splits sum.splits)

lemma retry_3_cases:
  assumes "retry 3 d b f st = (r, st')"
  obtains (first) v where "f st = (Inr v, st')" "r = Inr v"
  | (second) e1 s1 v where "f st = (Inl e1, s1)" "f (sleep d s1) = (Inr v, st')" "r = Inr v"
  | (third) e1 s1 e2 s2 where "f st = (Inl e1, s1)" "f (sleep d s1) = (Inl e2, s2)"
      "f (sleep (d * b) s2) = (r, st')"
  using assms by (auto simp: retry_3 split: prod.splits sum.splits)

text \<open>What the decorated function leaves alone, the decorator leaves alone.\<close>

lemma retry_preserves:
  assumes f: "\<And>s. g (snd (f s)) = g s" and sl: "\<And>d s. g (sleep d s) = g s"
  shows "g (snd (retry tries d b f st)) = g st"
proof (induction tries arbitrary: d st)
  case 0
  then show ?case by (simp add: retry_last f)
next
  case (Suc n)
  show ?case
  proof (cases "n = 0")
    case True
    then show ?thesis by (simp add: retry_last f)
  next
    case False
    then have big: "1 < Suc n" by simp
    obtain r s where fs: "f st = (r, s)" by (cases "f st")
    have gs: "g s = g st" using f [of st] by (simp add: fs)
    show ?thesis
    proof (cases r)
      case (Inl e)
      then show ?thesis by (simp add: retry_step [OF big] fs Suc.IH sl gs)
    next
      case (Inr v)
      then show ?thesis by (simp add: retry_step [OF big] fs gs)
    qed
  qed
qed

text \<open>One attempt sends one request; what it writes to the log depends on how far it gets.\<close>

lemma get_feed_body_Inl:
  "get_feed_body w url st = (Inl e, st') \<Longrightarrow>
   st' = st\<lparr>reqs := Suc (reqs st),
            debug_log := debug_log st @ [''Fetching feeds from ThingSpeak API'']\<rparr>"
  by (auto simp: get_feed_body_def debug_def requests_get_def Let_def
      split: http_outcome.splits option.splits sum.splits)

lemma get_feed_body_Inr:
  "get_feed_body w url st = (Inr fs, st') \<Longrightarrow>
   st' = st\<lparr>reqs := Suc (reqs st),
            debug_log := debug_log st @ [''Fetching feeds from ThingSpeak API'',
                                        ''Successfully retreived feeds from ThingSpeak'']\<rparr>"
  by (auto simp: get_feed_body_def debug_def requests_get_def Let_def
      split: http_outcome.splits option.splits sum.splits)

lemma get_feed_body_response:
  assumes "get_feed_body w url st = (Inr recs, st')"
  shows "\<exists>status response.
           net w (reqs st) (url @ ''&days=3'') = Response status (Some response)
           \<and> feed_records response = Inr recs"
  using assms
  by (auto simp: get_feed_body_def requests_get_def debug_def Let_def response_json_def
      split: http_outcome.splits option.splits sum.splits)

lemma get_keys_body_Inr:
  "get_keys_from_purple_body w st = (Inr k, st') \<Longrightarrow>
   st' = st\<lparr>reqs := Suc (reqs st),
            debug_log := debug_log st @ [''Fetching ThingSpeak keys from Purple API'',
                                        ''Successfully retreived ThingSpeak keys'']\<rparr>"
  by (auto simp: get_keys_from_purple_body_def debug_def requests_get_def Let_def
      split: http_outcome.splits option.splits sum.splits)

lemma get_keys_body_Inl:
  "get_keys_from_purple_body w st = (Inl e, st') \<Longrightarrow>
   st' = st\<lparr>reqs := Suc (reqs st),
            debug_log := debug_log st @ [''Fetching ThingSpeak keys from Purple API'']\<rparr>
   \<or> st' = st\<lparr>reqs := Suc (reqs st),
            debug_log := debug_log st @ [''Fetching ThingSpeak keys from Purple API'',
                                        ''Successfully retreived ThingSpeak keys'']\<rparr>"
  by (auto simp: get_keys_from_purple_body_def debug_def requests_get_def Let_def
      split: http_outcome.splits option.splits sum.splits)

lemma get_keys_body_block:
  assumes "get_keys_from_purple_body w s = (r, s')"
  obtains b where
    "s' = s\<lparr>reqs := Suc (reqs s), debug_log := debug_log s @ b\<rparr>"
    "b = [''Fetching ThingSpeak keys from Purple API'']
     \<or> b = [''Fetching ThingSpeak keys from Purple API'',
             ''Successfully retreived ThingSpeak keys'']"
    "\<forall>v. r = Inr v \<longrightarrow>
       b = [''Fetching ThingSpeak keys from Purple API'',
            ''Successfully retreived ThingSpeak keys'']"
proof (cases r)
  case (Inl e)
  with assms get_keys_body_Inl [of w s e s'] that show ?thesis by auto
next
  case (Inr v)
  with assms get_keys_body_Inr [of w s v s'] that show ?thesis by auto
qed




lemma sleep_debug_log: "debug_log (sleep d s) = debug_log s"
  by (simp add: sleep_def)

lemma sleep_loaded: "loaded (sleep d s) = loaded s"
  by (simp add: sleep_def)

text \<open>Unfolding the program on the example worlds.\<close>

lemmas run_simps =
  get_feed_body_def get_keys_from_purple_body_def requests_get_def debug_def sleep_def
  raise_for_status_def response_json_def purple_url_def Let_def

lemmas example_simps =
  world_example_def world_load_fails_def net_example_def net_flaky_def
  net_third_channel_down_def net_registry_late_def net_registry_incomplete_def api_example_def
  channel_example_def channel_two_feeds_def channel_no_feeds_def start_def

lemmas url_simps = feed_url_def base_url_def str_example_def digits.simps



text \<open>
  Claim C8, as the code has it. The debug calls are inside the decorated functions, so
  every attempt writes its own entry before the request: three times in a channel fetch
  that succeeds on its third attempt, twice in a registry fetch that succeeds on its
  second.
\<close>

theorem fetch_logs_every_attempt:
  "get_feed (world_example net_flaky) ''u'' start =
     (Inr [[(''name'', JStr ''X''), (''field1_name'', JStr ''PM2.5''),
            (''entry_id'', JInt 1), (''field1'', JStr ''12'')]],
      \<lparr>reqs = 3,
       debug_log = [''Fetching feeds from ThingSpeak API'', ''Fetching feeds from ThingSpeak API'',
                    ''Fetching feeds from ThingSpeak API'',
                    ''Successfully retreived feeds from ThingSpeak''],
       slept = [1, 5], loaded = []\<rparr>)
   \<and> get_keys_from_purple (world_example net_registry_late) start =
     (Inr (JObj sensor_example),
      \<lparr>reqs = 2,
       debug_log = [''Fetching ThingSpeak keys from Purple API'',
                    ''Successfully retreived ThingSpeak keys'',
                    ''Fetching ThingSpeak keys from Purple API'',
                    ''Successfully retreived ThingSpeak keys''],
       slept = [1], loaded = []\<rparr>)"
proof
  show "get_feed (world_example net_flaky) ''u'' start =
     (Inr [[(''name'', JStr ''X''), (''field1_name'', JStr ''PM2.5''),
            (''entry_id'', JInt 1), (''field1'', JStr ''12'')]],
      \<lparr>reqs = 3,
       debug_log = [''Fetching feeds from ThingSpeak API'', ''Fetching feeds from ThingSpeak API'',
                    ''Fetching feeds from ThingSpeak API'',
                    ''Successfully retreived feeds from ThingSpeak''],
       slept = [1, 5], loaded = []\<rparr>)"
    by (simp add: get_feed_def retry_3 run_simps example_simps value_simps)
  show "get_keys_from_purple (world_example net_registry_late) start =
     (Inr (JObj sensor_example),
      \<lparr>reqs = 2,
       debug_log = [''Fetching ThingSpeak keys from Purple API'',
                    ''Successfully retreived ThingSpeak keys'',
                    ''Fetching ThingSpeak keys from Purple API'',
                    ''Successfully retreived ThingSpeak keys''],
       slept = [1], loaded = []\<rparr>)"
    by (simp add: get_keys_from_purple_def retry_3 run_simps example_simps value_simps)
qed

text \<open>
  Claim C8, amended. A fetch makes between one and three attempts, three when it
  fails, and every attempt writes the entry before the request once, as its first
  entry. The channel fetch writes nothing else but its success entry, once and last,
  when it succeeds, and no success entry when it fails. An attempt of the registry
  fetch writes at most one success entry, right after its entry before the request,
  and the attempt that succeeds writes it; what an attempt that fails has written
  after its first entry is left open.
\<close>

theorem fetch_log_entries:
  "(get_feed w url st = (r, st') \<longrightarrow>
      (\<exists>n. 1 \<le> n \<and> n \<le> 3 \<and> reqs st' = reqs st + n \<and>
           debug_log st' =
             debug_log st @ replicate n ''Fetching feeds from ThingSpeak API''
               @ (case r of Inl e \<Rightarrow> []
                  | Inr fs \<Rightarrow> [''Successfully retreived feeds from ThingSpeak'']) \<and>
           (case r of Inl e \<Rightarrow> n = 3 | Inr fs \<Rightarrow> True)))
   \<and> (get_keys_from_purple w st = (k, st'') \<longrightarrow>
      (\<exists>blocks. 1 \<le> length blocks \<and> length blocks \<le> 3 \<and>
           reqs st'' = reqs st + length blocks \<and>
           debug_log st'' = debug_log st @ concat blocks \<and>
           list_all (\<lambda>b. b = [''Fetching ThingSpeak keys from Purple API'']
                        \<or> b = [''Fetching ThingSpeak keys from Purple API'',
                                ''Successfully retreived ThingSpeak keys'']) blocks \<and>
           (case k of
              Inl e \<Rightarrow> length blocks = 3
            | Inr sensor \<Rightarrow>
                last blocks = [''Fetching ThingSpeak keys from Purple API'',
                               ''Successfully retreived ThingSpeak keys''])))"
proof (intro conjI impI)
  let ?F = "''Fetching feeds from ThingSpeak API''"
  let ?S = "''Successfully retreived feeds from ThingSpeak''"
  let ?end = "\<lambda>r :: error + dict list. case r of Inl e \<Rightarrow> [] | Inr fs \<Rightarrow> [?S]"
  assume "get_feed w url st = (r, st')"
  then have run: "retry 3 1 5 (get_feed_body w url) st = (r, st')"
    by (simp add: get_feed_def)
  from run show "\<exists>n. 1 \<le> n \<and> n \<le> 3 \<and> reqs st' = reqs st + n \<and>
           debug_log st' = debug_log st @ replicate n ?F @ ?end r \<and>
           (case r of Inl e \<Rightarrow> n = 3 | Inr fs \<Rightarrow> True)"
  proof (cases rule: retry_3_cases)
    case (first v)
    from get_feed_body_Inr [OF first(1)] first(2) show ?thesis
      by (intro exI [of _ 1]) simp
  next
    case (second e1 s1 v)
    from get_feed_body_Inl [OF second(1)] get_feed_body_Inr [OF second(2)] second(3)
    show ?thesis
      by (intro exI [of _ 2]) (simp add: sleep_def numeral_2_eq_2)
  next
    case (third e1 s1 e2 s2)
    note two = get_feed_body_Inl [OF third(1)] get_feed_body_Inl [OF third(2)]
    show ?thesis
    proof (cases r)
      case (Inl e3)
      with third(3) have "get_feed_body w url (sleep (1 * 5) s2) = (Inl e3, st')" by simp
      from two get_feed_body_Inl [OF this] Inl show ?thesis
        by (intro exI [of _ 3]) (simp add: sleep_def numeral_3_eq_3)
    next
      case (Inr v)
      with third(3) have "get_feed_body w url (sleep (1 * 5) s2) = (Inr v, st')" by simp
      from two get_feed_body_Inr [OF this] Inr show ?thesis
        by (intro exI [of _ 3]) (simp add: sleep_def numeral_3_eq_3)
    qed
  qed
next
  let ?F = "''Fetching ThingSpeak keys from Purple API''"
  let ?S = "''Successfully retreived ThingSpeak keys''"
  assume "get_keys_from_purple w st = (k, st'')"
  then have run: "retry 3 1 5 (get_keys_from_purple_body w) st = (k, st'')"
    by (simp add: get_keys_from_purple_def)
  from run show "\<exists>blocks. 1 \<le> length blocks \<and> length blocks \<le> 3 \<and>
           reqs st'' = reqs st + length blocks \<and>
           debug_log st'' = debug_log st @ concat blocks \<and>
           list_all (\<lambda>b. b = [?F] \<or> b = [?F, ?S]) blocks \<and>
           (case k of Inl e \<Rightarrow> length blocks = 3 | Inr sensor \<Rightarrow> last blocks = [?F, ?S])"
  proof (cases rule: retry_3_cases)
    case (first v)
    from first(1) obtain b1 where
      s: "st'' = st\<lparr>reqs := Suc (reqs st), debug_log := debug_log st @ b1\<rparr>"
      and b1: "b1 = [?F, ?S]"
      by (rule get_keys_body_block) blast
    from s b1 first(2) show ?thesis
      by (intro exI [of _ "[b1]"]) simp
  next
    case (second e1 s1 v)
    from second(1) obtain b1 where
      s1: "s1 = st\<lparr>reqs := Suc (reqs st), debug_log := debug_log st @ b1\<rparr>"
      and b1: "b1 = [?F] \<or> b1 = [?F, ?S]"
      by (rule get_keys_body_block)
    from second(2) obtain b2 where
      s2: "st'' = (sleep 1 s1)\<lparr>reqs := Suc (reqs (sleep 1 s1)),
                    debug_log := debug_log (sleep 1 s1) @ b2\<rparr>"
      and b2: "b2 = [?F, ?S]"
      by (rule get_keys_body_block) blast
    from s1 b1 s2 b2 second(3) show ?thesis
      by (intro exI [of _ "[b1, b2]"]) (auto simp: sleep_def)
  next
    case (third e1 s1 e2 s2)
    from third(1) obtain b1 where
      s1: "s1 = st\<lparr>reqs := Suc (reqs st), debug_log := debug_log st @ b1\<rparr>"
      and b1: "b1 = [?F] \<or> b1 = [?F, ?S]"
      by (rule get_keys_body_block)
    from third(2) obtain b2 where
      s2: "s2 = (sleep 1 s1)\<lparr>reqs := Suc (reqs (sleep 1 s1)),
                 debug_log := debug_log (sleep 1 s1) @ b2\<rparr>"
      and b2: "b2 = [?F] \<or> b2 = [?F, ?S]"
      by (rule get_keys_body_block)
    from third(3) obtain b3 where
      s3: "st'' = (sleep (1 * 5) s2)\<lparr>reqs := Suc (reqs (sleep (1 * 5) s2)),
                 debug_log := debug_log (sleep (1 * 5) s2) @ b3\<rparr>"
      and b3: "b3 = [?F] \<or> b3 = [?F, ?S]"
      and ok: "\<forall>v. k = Inr v \<longrightarrow> b3 = [?F, ?S]"
      by (rule get_keys_body_block)
    have len: "length [b1, b2, b3] = 3" by simp
    have log: "debug_log st'' = debug_log st @ concat [b1, b2, b3]"
      by (simp add: s1 s2 s3 sleep_def)
    have rq: "reqs st'' = reqs st + length [b1, b2, b3]"
      by (simp add: s1 s2 s3 sleep_def)
    have all: "list_all (\<lambda>b. b = [?F] \<or> b = [?F, ?S]) [b1, b2, b3]"
      using b1 b2 b3 by simp
    have fin: "case k of Inl e \<Rightarrow> length [b1, b2, b3] = 3
               | Inr sensor \<Rightarrow> last [b1, b2, b3] = [?F, ?S]"
      using ok by (cases k) simp_all
    from len log rq all fin show ?thesis
      by (intro exI [of _ "[b1, b2, b3]"]) simp
  qed
qed

theorem fetch_log_entries_witness:
  "fst (get_feed (world_example net_flaky) ''u'' start) = Inr [record_x]
   \<and> (\<exists>n. 1 \<le> n \<and> n \<le> 3 \<and>
          reqs (snd (get_feed (world_example net_flaky) ''u'' start)) = reqs start + n \<and>
          debug_log (snd (get_feed (world_example net_flaky) ''u'' start)) =
            debug_log start @ replicate n ''Fetching feeds from ThingSpeak API''
              @ [''Successfully retreived feeds from ThingSpeak''])
   \<and> fst (get_feed (world_example net_third_channel_down) ''u'' (start\<lparr>reqs := 3\<rparr>))
       = Inl (HTTPError 503)
   \<and> debug_log (snd (get_feed (world_example net_third_channel_down) ''u''
                        (start\<lparr>reqs := 3\<rparr>))) =
       replicate 3 ''Fetching feeds from ThingSpeak API''
   \<and> fst (get_keys_from_purple (world_example net_registry_late) start)
       = Inr (JObj sensor_example)
   \<and> (\<exists>blocks. 1 \<le> length blocks \<and> length blocks \<le> 3 \<and>
          reqs (snd (get_keys_from_purple (world_example net_registry_late) start))
            = reqs start + length blocks \<and>
          debug_log (snd (get_keys_from_purple (world_example net_registry_late) start))
            = debug_log start @ concat blocks \<and>
          list_all (\<lambda>b. b = [''Fetching ThingSpeak keys from Purple API'']
                       \<or> b = [''Fetching ThingSpeak keys from Purple API'',
                               ''Successfully retreived ThingSpeak keys'']) blocks \<and>
          last blocks = [''Fetching ThingSpeak keys from Purple API'',
                         ''Successfully retreived ThingSpeak keys''])"
proof -
  let ?F = "''Fetching feeds from ThingSpeak API''"
  let ?S = "''Successfully retreived feeds from ThingSpeak''"
  let ?K = "''Fetching ThingSpeak keys from Purple API''"
  let ?KS = "''Successfully retreived ThingSpeak keys''"
  let ?s = "\<lparr>reqs = 3, debug_log = [?F, ?F, ?F, ?S], slept = [1, 5], loaded = []\<rparr>"
  let ?d = "\<lparr>reqs = 6, debug_log = [?F, ?F, ?F], slept = [1, 5], loaded = []\<rparr>"
  let ?t = "\<lparr>reqs = 2, debug_log = [?K, ?KS, ?K, ?KS], slept = [1], loaded = []\<rparr>"
  have g: "get_feed (world_example net_flaky) ''u'' start = (Inr [record_x], ?s)"
    by (simp add: get_feed_def retry_3 run_simps example_simps value_simps record_x_def)
  have h: "get_feed (world_example net_third_channel_down) ''u'' (start\<lparr>reqs := 3\<rparr>)
             = (Inl (HTTPError 503), ?d)"
    by (simp add: get_feed_def retry_3 run_simps example_simps)
  have k: "get_keys_from_purple (world_example net_registry_late) start =
     (Inr (JObj sensor_example), ?t)"
    by (simp add: get_keys_from_purple_def retry_3 run_simps example_simps value_simps)
  note ok = fetch_log_entries [THEN conjunct1, rule_format, OF g]
  note down = fetch_log_entries [THEN conjunct1, rule_format, OF h]
  note keys = fetch_log_entries [THEN conjunct2, rule_format, OF k]
  have a: "fst (get_feed (world_example net_flaky) ''u'' start) = Inr [record_x]"
    by (simp add: g)
  from ok have b: "\<exists>n. 1 \<le> n \<and> n \<le> 3 \<and>
          reqs (snd (get_feed (world_example net_flaky) ''u'' start)) = reqs start + n \<and>
          debug_log (snd (get_feed (world_example net_flaky) ''u'' start)) =
            debug_log start @ replicate n ?F @ [?S]"
    unfolding g snd_conv sum.case by blast
  have c: "fst (get_feed (world_example net_third_channel_down) ''u'' (start\<lparr>reqs := 3\<rparr>))
       = Inl (HTTPError 503)"
    by (simp add: h)
  from down obtain n where n: "n = 3"
    and l: "debug_log ?d = debug_log (start\<lparr>reqs := 3\<rparr>) @ replicate n ?F @ []"
    unfolding sum.case by blast
  have d: "debug_log (snd (get_feed (world_example net_third_channel_down) ''u''
                        (start\<lparr>reqs := 3\<rparr>))) = replicate 3 ?F"
    unfolding h snd_conv using l n by (simp add: start_def)
  have e: "fst (get_keys_from_purple (world_example net_registry_late) start)
       = Inr (JObj sensor_example)"
    by (simp add: k)
  from keys have f: "\<exists>blocks. 1 \<le> length blocks \<and> length blocks \<le> 3 \<and>
          reqs (snd (get_keys_from_purple (world_example net_registry_late) start))
            = reqs start + length blocks \<and>
          debug_log (snd (get_keys_from_purple (world_example net_registry_late) start))
            = debug_log start @ concat blocks \<and>
          list_all (\<lambda>b. b = [?K] \<or> b = [?K, ?KS]) blocks \<and>
          last blocks = [?K, ?KS]"
    unfolding k snd_conv sum.case by blast
  from a b c d e f show ?thesis by (intro conjI)
qed

text \<open>
  Claim C10. A response with a good status, a channel that has a name and a feeds array
  of objects makes \<open>get_feed\<close> return one record per element of the array, in the
  array's order, and the empty list when the array is empty. Whatever \<open>get_feed\<close>
  returns is the transformation of a response the network gave to its last attempt,
  and a transformation that succeeds on a feeds array has as many records as the array
  has elements, the i-th record made from the i-th element.
\<close>

theorem get_feed_one_record_per_feed:
  "(net w (reqs st) (url @ ''&days=3'') = Response status (Some (JObj resp)) \<longrightarrow>
      (status < 400 \<or> 600 \<le> status) \<longrightarrow>
      map_of resp ''channel'' = Some (JObj ch) \<longrightarrow>
      map_of ch ''name'' = Some name \<longrightarrow>
      map_of resp ''feeds'' = Some (JList (map JObj fs)) \<longrightarrow>
      fst (get_feed w url st) =
        Inr (map (\<lambda>f. dict_unpack [[(''name'', name)], field_names ch, f]) fs)
      \<and> (fs = [] \<longrightarrow> fst (get_feed w url st) = Inr []))
   \<and> (get_feed w url st = (Inr recs, st') \<longrightarrow>
        (\<exists>status response.
            net w (reqs st' - 1) (url @ ''&days=3'') = Response status (Some response)
            \<and> feed_records response = Inr recs))
   \<and> (feed_records response = Inr recs \<longrightarrow>
        getitem response ''feeds'' = Inr (JList js) \<longrightarrow>
        length recs = length js
        \<and> (\<exists>name ch. \<forall>i < length js. \<exists>f. js ! i = JObj f
              \<and> recs ! i = dict_unpack [[(''name'', name)], field_names ch, f]))"
proof (intro conjI impI)
  assume r: "net w (reqs st) (url @ ''&days=3'') = Response status (Some (JObj resp))"
    and s: "status < 400 \<or> 600 \<le> status"
    and c: "map_of resp ''channel'' = Some (JObj ch)"
    and n: "map_of ch ''name'' = Some name"
    and f: "map_of resp ''feeds'' = Some (JList (map JObj fs))"
  let ?recs = "map (\<lambda>f. dict_unpack [[(''name'', name)], field_names ch, f]) fs"
  have ok: "raise_for_status status = None"
    using s by (auto simp: raise_for_status_def)
  have "fst (get_feed_body w url st) = Inr ?recs"
    by (simp add: get_feed_body_def requests_get_def debug_def Let_def r ok
        response_json_def feed_records_ok [OF c n f])
  then obtain s' where "get_feed_body w url st = (Inr ?recs, s')"
    by (cases "get_feed_body w url st") simp
  then show first: "fst (get_feed w url st) = Inr ?recs"
    by (simp add: get_feed_def retry_3)
  show "fst (get_feed w url st) = Inr []" if "fs = []"
    using first that by simp
next
  assume "get_feed w url st = (Inr recs, st')"
  then have run: "retry 3 1 5 (get_feed_body w url) st = (Inr recs, st')"
    by (simp add: get_feed_def)
  have last: "\<exists>status response.
      net w (reqs st' - 1) (url @ ''&days=3'') = Response status (Some response)
      \<and> feed_records response = Inr recs"
    if "get_feed_body w url s = (Inr recs, st')" for s
    using get_feed_body_response [OF that] get_feed_body_Inr [OF that] by simp
  from run show "\<exists>status response.
      net w (reqs st' - 1) (url @ ''&days=3'') = Response status (Some response)
      \<and> feed_records response = Inr recs"
  proof (cases rule: retry_3_cases)
    case (first v)
    then show ?thesis by (intro last [of st]) simp
  next
    case (second e1 s1 v)
    then show ?thesis by (intro last [of "sleep 1 s1"]) simp
  next
    case (third e1 s1 e2 s2)
    then show ?thesis by (intro last [of "sleep (1 * 5) s2"]) simp
  qed
next
  assume r: "feed_records response = Inr recs"
    and f: "getitem response ''feeds'' = Inr (JList js)"
  from r obtain ch name fs ds where
    fs: "getitem response ''feeds'' = Inr fs" "iterate fs = Inr (map JObj ds)"
    and recs: "recs = map (\<lambda>f. dict_unpack [[(''name'', name)], field_names ch, f]) ds"
    by (rule feed_records_Inr)
  from fs(1) f have "fs = JList js"
    by simp
  with fs(2) have js: "js = map JObj ds"
    by (simp add: iterate_def)
  then show "length recs = length js"
    by (simp add: recs)
  show "\<exists>name ch. \<forall>i < length js. \<exists>f. js ! i = JObj f
          \<and> recs ! i = dict_unpack [[(''name'', name)], field_names ch, f]"
    by (intro exI [of _ name] exI [of _ ch]) (simp add: js recs)
qed

theorem get_feed_one_record_per_feed_witness:
  "fst (get_feed (world_example net_example)
          ''https://api.thingspeak.com/channels/201/feeds.json?api_key=KA2'' start)
     = Inr records_y
   \<and> fst (get_feed (world_example net_example)
          ''https://api.thingspeak.com/channels/102/feeds.json?api_key=KB1'' start)
     = Inr []
   \<and> (\<exists>status response.
         net (world_example net_flaky) (3 - 1) (''u'' @ ''&days=3'')
           = Response status (Some response)
         \<and> feed_records response = Inr [record_x])
   \<and> length records_y = length [JObj [(''entry_id'', JInt 1), (''field2'', JStr ''40'')],
                                  JObj [(''entry_id'', JInt 2), (''field2'', JStr ''41'')]]"
proof -
  let ?w = "world_example net_example"
  let ?u = "''https://api.thingspeak.com/channels/201/feeds.json?api_key=KA2''"
  let ?v = "''https://api.thingspeak.com/channels/102/feeds.json?api_key=KB1''"
  let ?ch = "[(''name'', JStr ''Y''), (''field2'', JStr ''Humidity'')]"
  let ?fs = "[[(''entry_id'', JInt 1), (''field2'', JStr ''40'')],
              [(''entry_id'', JInt 2), (''field2'', JStr ''41'')]]"
  let ?resp = "[(''channel'', JObj ?ch), (''feeds'', JList (map JObj ?fs))]"
  let ?empty = "[(''channel'', JObj [(''name'', JStr ''Z'')]), (''feeds'', JList (map JObj []))]"
  have n1: "net ?w (reqs start) (?u @ ''&days=3'') = Response 200 (Some (JObj ?resp))"
    by (simp add: example_simps)
  have n2: "net ?w (reqs start) (?v @ ''&days=3'') = Response 200 (Some (JObj ?empty))"
    by (simp add: example_simps)
  have st: "(200::nat) < 400 \<or> (600::nat) \<le> 200"
    by simp
  have c1: "map_of ?resp ''channel'' = Some (JObj ?ch)"
    and m1: "map_of ?ch ''name'' = Some (JStr ''Y'')"
    and f1: "map_of ?resp ''feeds'' = Some (JList (map JObj ?fs))"
    by simp_all
  have c2: "map_of ?empty ''channel'' = Some (JObj [(''name'', JStr ''Z'')])"
    and m2: "map_of [(''name'', JStr ''Z'')] ''name'' = Some (JStr ''Z'')"
    and f2: "map_of ?empty ''feeds'' = Some (JList (map JObj []))"
    by simp_all
  note one = get_feed_one_record_per_feed [THEN conjunct1, rule_format, OF n1 st c1 m1 f1,
      THEN conjunct1]
  note none = get_feed_one_record_per_feed [THEN conjunct1, rule_format, OF n2 st c2 m2 f2,
      THEN conjunct2, rule_format, OF refl]
  have g: "get_feed (world_example net_flaky) ''u'' start =
      (Inr [record_x],
       \<lparr>reqs = 3,
        debug_log = [''Fetching feeds from ThingSpeak API'', ''Fetching feeds from ThingSpeak API'',
                     ''Fetching feeds from ThingSpeak API'',
                     ''Successfully retreived feeds from ThingSpeak''],
        slept = [1, 5], loaded = []\<rparr>)"
    by (simp add: get_feed_def retry_3 run_simps example_simps value_simps record_x_def)
  note later = get_feed_one_record_per_feed [THEN conjunct2, THEN conjunct1, rule_format, OF g]
  have r: "feed_records channel_two_feeds = Inr records_y"
    by (simp add: channel_two_feeds_def value_simps records_y_def)
  have f: "getitem channel_two_feeds ''feeds'' = Inr (JList (map JObj ?fs))"
    by (simp add: channel_two_feeds_def getitem_def)
  note len = get_feed_one_record_per_feed [THEN conjunct2, THEN conjunct2, rule_format,
      OF r f, THEN conjunct1]
  from one have a: "fst (get_feed ?w ?u start) = Inr records_y"
    by (simp add: records_y_def value_simps)
  from none have b: "fst (get_feed ?w ?v start) = Inr []"
    by simp
  from later have c: "\<exists>status response.
         net (world_example net_flaky) (3 - 1) (''u'' @ ''&days=3'')
           = Response status (Some response)
         \<and> feed_records response = Inr [record_x]"
    by simp
  from len have d: "length records_y = length [JObj [(''entry_id'', JInt 1), (''field2'', JStr ''40'')],
                                  JObj [(''entry_id'', JInt 2), (''field2'', JStr ''41'')]]"
    by simp
  from a b c d show ?thesis by (intro conjI)
qed

section \<open>Properties of the pipeline\<close>

text \<open>Nothing before the load touches the warehouse.\<close>

lemma get_feed_body_loaded: "loaded (snd (get_feed_body w url st)) = loaded st"
proof -
  obtain r s where b: "get_feed_body w url st = (r, s)" by (cases "get_feed_body w url st")
  show ?thesis
  proof (cases r)
    case (Inl e)
    with b get_feed_body_Inl [of w url st e s] show ?thesis by simp
  next
    case (Inr v)
    with b get_feed_body_Inr [of w url st v s] show ?thesis by simp
  qed
qed

lemma get_keys_body_loaded: "loaded (snd (get_keys_from_purple_body w st)) = loaded st"
proof -
  obtain r s where b: "get_keys_from_purple_body w st = (r, s)"
    by (cases "get_keys_from_purple_body w st")
  show ?thesis
  proof (cases r)
    case (Inl e)
    with b get_keys_body_Inl [of w st e s] show ?thesis by auto
  next
    case (Inr v)
    with b get_keys_body_Inr [of w st v s] show ?thesis by simp
  qed
qed

lemma get_feed_loaded: "get_feed w url st = (r, st') \<Longrightarrow> loaded st' = loaded st"
  using retry_preserves [of loaded "get_feed_body w url" 3 1 5 st]
  by (simp add: get_feed_def get_feed_body_loaded sleep_loaded)

lemma get_keys_loaded: "get_keys_from_purple w st = (r, st') \<Longrightarrow> loaded st' = loaded st"
  using retry_preserves [of loaded "get_keys_from_purple_body w" 3 1 5 st]
  by (simp add: get_keys_from_purple_def get_keys_body_loaded sleep_loaded)

lemma collect_feeds_loaded: "collect_feeds w us st = (r, st') \<Longrightarrow> loaded st' = loaded st"
proof (induction us arbitrary: st r st')
  case Nil
  then show ?case by simp
next
  case (Cons u us)
  obtain x s where g: "get_feed w u st = (x, s)" by (cases "get_feed w u st")
  note l = get_feed_loaded [OF g]
  show ?case
  proof (cases x)
    case (Inl e)
    with Cons.prems g l show ?thesis by simp
  next
    case (Inr fs)
    obtain y t where c: "collect_feeds w us s = (y, t)" by (cases "collect_feeds w us s")
    from Cons.IH [OF c] l have "loaded t = loaded st" by simp
    with Cons.prems g Inr c show ?thesis by (cases y) auto
  qed
qed

lemma extract_loaded: "extract w st = (r, st') \<Longrightarrow> loaded st' = loaded st"
proof -
  assume ex: "extract w st = (r, st')"
  obtain x s where k: "get_keys_from_purple w st = (x, s)"
    by (cases "get_keys_from_purple w st")
  note l = get_keys_loaded [OF k]
  show ?thesis
  proof (cases x)
    case (Inl e)
    with ex k l show ?thesis by (simp add: extract_def)
  next
    case (Inr resp)
    show ?thesis
    proof (cases "from_dict resp")
      case (Inl e)
      with ex k l Inr show ?thesis by (simp add: extract_def)
    next
      case (Inr ts)
      with ex k \<open>x = Inr resp\<close> have "collect_feeds w (urls w ts) s = (r, st')"
        by (simp add: extract_def feeds_def)
      from collect_feeds_loaded [OF this] l show ?thesis by simp
    qed
  qed
qed

lemma load_loaded:
  "loaded (snd (load w batch st)) = loaded st \<or> loaded (snd (load w batch st)) = loaded st @ [batch]"
  by (simp add: load_def debug_def Let_def split: option.splits)

lemma collect_feeds_append:
  "collect_feeds w us st = (Inr rs, st1) \<Longrightarrow>
   collect_feeds w (us @ vs) st =
     (case collect_feeds w vs st1 of
        (Inl e, st2) \<Rightarrow> (Inl e, st2)
      | (Inr gs, st2) \<Rightarrow> (Inr (rs @ gs), st2))"
proof (induction us arbitrary: st rs)
  case Nil
  then show ?case by (auto split: prod.splits sum.splits)
next
  case (Cons u us)
  from Cons.prems obtain fs s gs where
    g: "get_feed w u st = (Inr fs, s)" and c: "collect_feeds w us s = (Inr gs, st1)"
    and rs: "rs = fs @ gs"
    by (auto split: prod.splits sum.splits)
  show ?case
    by (simp add: g Cons.IH [OF c] rs split: prod.splits sum.splits)
qed

lemma collect_feeds_error:
  assumes "collect_feeds w us st = (Inr rs, st1)" and "get_feed w u st1 = (Inl e, st2)"
  shows "collect_feeds w (us @ u # vs) st = (Inl e, st2)"
  by (simp add: collect_feeds_append [OF assms(1)] assms(2))

text \<open>The run of the pipeline on the example worlds.\<close>

lemmas pipeline_simps =
  extract_def feeds_def urls_def id_key_pairs_def get_keys_from_purple_def get_feed_def retry_3
  from_dict_def init_def parameters_def sensor_example_def sensor_mistyped_def
  load_def destination_def

lemma example_keys:
  "get_keys_from_purple (world_example net_example) s =
     (Inr (JObj sensor_example),
      s\<lparr>reqs := Suc (reqs s),
        debug_log := debug_log s @ [''Fetching ThingSpeak keys from Purple API'',
                                    ''Successfully retreived ThingSpeak keys'']\<rparr>)"
  by (simp add: get_keys_from_purple_def retry_3 run_simps example_simps value_simps)

lemma example_from_dict: "from_dict (JObj sensor_example) = Inr thingspeak_example"
  by (simp add: sensor_example_def thingspeak_example_def from_dict_def items_def
      dict_of_items_def setitem_def parameters_def init_def)

lemma example_feed_101:
  "get_feed (world_example net_example)
     (feed_url (world_example net_example) (JInt 101) (JStr ''KA1'')) s =
     (Inr [record_x],
      s\<lparr>reqs := Suc (reqs s),
        debug_log := debug_log s @ [''Fetching feeds from ThingSpeak API'',
                                    ''Successfully retreived feeds from ThingSpeak'']\<rparr>)"
  by (simp add: get_feed_def retry_3 run_simps example_simps value_simps url_simps record_x_def)

lemma example_feed_201:
  "get_feed (world_example net_example)
     (feed_url (world_example net_example) (JInt 201) (JStr ''KA2'')) s =
     (Inr records_y,
      s\<lparr>reqs := Suc (reqs s),
        debug_log := debug_log s @ [''Fetching feeds from ThingSpeak API'',
                                    ''Successfully retreived feeds from ThingSpeak'']\<rparr>)"
  by (simp add: get_feed_def retry_3 run_simps example_simps value_simps url_simps records_y_def)

lemma example_feed_102:
  "get_feed (world_example net_example)
     (feed_url (world_example net_example) (JInt 102) (JStr ''KB1'')) s =
     (Inr [],
      s\<lparr>reqs := Suc (reqs s),
        debug_log := debug_log s @ [''Fetching feeds from ThingSpeak API'',
                                    ''Successfully retreived feeds from ThingSpeak'']\<rparr>)"
  by (simp add: get_feed_def retry_3 run_simps example_simps value_simps url_simps)

lemma example_feed_202:
  "get_feed (world_example net_example)
     (feed_url (world_example net_example) (JInt 202) (JStr ''KB2'')) s =
     (Inr [record_x],
      s\<lparr>reqs := Suc (reqs s),
        debug_log := debug_log s @ [''Fetching feeds from ThingSpeak API'',
                                    ''Successfully retreived feeds from ThingSpeak'']\<rparr>)"
  by (simp add: get_feed_def retry_3 run_simps example_simps value_simps url_simps record_x_def)

lemma example_extract:
  "extract (world_example net_example) start =
     (Inr (record_x # records_y @ [record_x]),
      \<lparr>reqs = 5,
       debug_log =
         [''Fetching ThingSpeak keys from Purple API'', ''Successfully retreived ThingSpeak keys'',
          ''Fetching feeds from ThingSpeak API'', ''Successfully retreived feeds from ThingSpeak'',
          ''Fetching feeds from ThingSpeak API'', ''Successfully retreived feeds from ThingSpeak'',
          ''Fetching feeds from ThingSpeak API'', ''Successfully retreived feeds from ThingSpeak'',
          ''Fetching feeds from ThingSpeak API'', ''Successfully retreived feeds from ThingSpeak''],
       slept = [], loaded = []\<rparr>)"
  by (simp add: pipeline_simps run_simps example_simps value_simps url_simps
      record_x_def records_y_def)

lemma example_extract_load_fails:
  "extract world_load_fails start =
     (Inr (record_x # records_y @ [record_x]),
      \<lparr>reqs = 5,
       debug_log =
         [''Fetching ThingSpeak keys from Purple API'', ''Successfully retreived ThingSpeak keys'',
          ''Fetching feeds from ThingSpeak API'', ''Successfully retreived feeds from ThingSpeak'',
          ''Fetching feeds from ThingSpeak API'', ''Successfully retreived feeds from ThingSpeak'',
          ''Fetching feeds from ThingSpeak API'', ''Successfully retreived feeds from ThingSpeak'',
          ''Fetching feeds from ThingSpeak API'', ''Successfully retreived feeds from ThingSpeak''],
       slept = [], loaded = []\<rparr>)"
  by (simp add: pipeline_simps run_simps example_simps value_simps url_simps
      record_x_def records_y_def)

lemma example_extract_down:
  "extract (world_example net_third_channel_down) start =
     (Inl (HTTPError 503),
      \<lparr>reqs = 6,
       debug_log =
         [''Fetching ThingSpeak keys from Purple API'', ''Successfully retreived ThingSpeak keys'',
          ''Fetching feeds from ThingSpeak API'', ''Successfully retreived feeds from ThingSpeak'',
          ''Fetching feeds from ThingSpeak API'', ''Successfully retreived feeds from ThingSpeak'',
          ''Fetching feeds from ThingSpeak API'', ''Fetching feeds from ThingSpeak API'',
          ''Fetching feeds from ThingSpeak API''],
       slept = [1, 5], loaded = []\<rparr>)"
  by (simp add: pipeline_simps run_simps example_simps value_simps url_simps
      record_x_def records_y_def)

text \<open>
  Claim C3. When the registry fetch and the construction of the credential set succeed
  and the four channel fetches, made in the order primary A, secondary A, primary B,
  secondary B, return \<open>r1\<close>, \<open>r2\<close>, \<open>r3\<close> and \<open>r4\<close>, then \<open>extract\<close> returns
  their concatenation in that order, which has as many records as the four together.
\<close>

theorem extract_concatenates_channels:
  assumes "get_keys_from_purple w st = (Inr purple_air_response, st0)"
    and "from_dict purple_air_response = Inr ts"
    and "get_feed w (feed_url w (primary_id_a ts) (primary_key_a ts)) st0 = (Inr r1, st1)"
    and "get_feed w (feed_url w (secondary_id_a ts) (secondary_key_a ts)) st1 = (Inr r2, st2)"
    and "get_feed w (feed_url w (primary_id_b ts) (primary_key_b ts)) st2 = (Inr r3, st3)"
    and "get_feed w (feed_url w (secondary_id_b ts) (secondary_key_b ts)) st3 = (Inr r4, st4)"
  shows "extract w st = (Inr (r1 @ r2 @ r3 @ r4), st4)
       \<and> feeds w ts st0 = (Inr (r1 @ r2 @ r3 @ r4), st4)
       \<and> length (r1 @ r2 @ r3 @ r4) = length r1 + length r2 + length r3 + length r4"
proof -
  have "feeds w ts st0 = (Inr (r1 @ r2 @ r3 @ r4), st4)"
    by (simp add: feeds_def urls_def id_key_pairs_def assms(3-6))
  then show ?thesis
    by (simp add: extract_def assms(1,2))
qed

theorem extract_concatenates_channels_witness:
  "fst (extract (world_example net_example) start) = Inr ([record_x] @ records_y @ [] @ [record_x])
   \<and> length ([record_x] @ records_y @ [] @ [record_x])
       = length [record_x] + length records_y + length ([] :: dict list) + length [record_x]"
proof -
  let ?w = "world_example net_example"
  have ts: "primary_id_a thingspeak_example = JInt 101"
    "primary_key_a thingspeak_example = JStr ''KA1''"
    "secondary_id_a thingspeak_example = JInt 201"
    "secondary_key_a thingspeak_example = JStr ''KA2''"
    "primary_id_b thingspeak_example = JInt 102"
    "primary_key_b thingspeak_example = JStr ''KB1''"
    "secondary_id_b thingspeak_example = JInt 202"
    "secondary_key_b thingspeak_example = JStr ''KB2''"
    by (simp_all add: thingspeak_example_def)
  note run = extract_concatenates_channels [of ?w start, OF example_keys example_from_dict,
      unfolded ts, OF example_feed_101 example_feed_201 example_feed_102 example_feed_202]
  from run show ?thesis by simp
qed

text \<open>
  Claim C7. \<open>extract\<close> raises the error of the registry fetch, of the construction
  of the credential set, or of the first channel fetch that fails after its retries,
  whatever the channels before it returned; an error carries no records. \<open>main\<close> then
  raises the same error and has handed nothing to the warehouse.
\<close>

theorem extract_aborts_on_failure:
  "(get_keys_from_purple w st = (Inl e, st1) \<longrightarrow> extract w st = (Inl e, st1))
   \<and> (get_keys_from_purple w st = (Inr purple_air_response, st1) \<longrightarrow>
        from_dict purple_air_response = Inl e \<longrightarrow> extract w st = (Inl e, st1))
   \<and> (get_keys_from_purple w st = (Inr purple_air_response, st1) \<longrightarrow>
        from_dict purple_air_response = Inr ts \<longrightarrow>
        urls w ts = us @ u # vs \<longrightarrow>
        collect_feeds w us st1 = (Inr rs, st2) \<longrightarrow>
        get_feed w u st2 = (Inl e, st3) \<longrightarrow> extract w st = (Inl e, st3))
   \<and> (extract w st = (Inl e, st') \<longrightarrow> main w st = (Inl e, st') \<and> loaded st' = loaded st)"
proof (intro conjI impI)
  assume "get_keys_from_purple w st = (Inl e, st1)"
  then show "extract w st = (Inl e, st1)" by (simp add: extract_def)
next
  assume "get_keys_from_purple w st = (Inr purple_air_response, st1)"
    and "from_dict purple_air_response = Inl e"
  then show "extract w st = (Inl e, st1)" by (simp add: extract_def)
next
  assume k: "get_keys_from_purple w st = (Inr purple_air_response, st1)"
    and f: "from_dict purple_air_response = Inr ts"
    and u: "urls w ts = us @ u # vs"
    and c: "collect_feeds w us st1 = (Inr rs, st2)"
    and g: "get_feed w u st2 = (Inl e, st3)"
  from collect_feeds_error [OF c g] show "extract w st = (Inl e, st3)"
    by (simp add: extract_def k f feeds_def u)
next
  assume "extract w st = (Inl e, st')"
  then show "main w st = (Inl e, st')" by (simp add: main_def)
next
  assume "extract w st = (Inl e, st')"
  then show "loaded st' = loaded st" by (rule extract_loaded)
qed

theorem extract_aborts_on_failure_witness:
  "extract (world_example net_third_channel_down) (start\<lparr>reqs := 3\<rparr>) =
     (Inl (HTTPError 503),
      \<lparr>reqs = 6,
       debug_log = [''Fetching ThingSpeak keys from Purple API'',
                    ''Fetching ThingSpeak keys from Purple API'',
                    ''Fetching ThingSpeak keys from Purple API''],
       slept = [1, 5], loaded = []\<rparr>)
   \<and> extract (world_example net_registry_incomplete) start =
     (Inl TypeError,
      \<lparr>reqs = 1,
       debug_log = [''Fetching ThingSpeak keys from Purple API'',
                    ''Successfully retreived ThingSpeak keys''],
       slept = [], loaded = []\<rparr>)
   \<and> extract (world_example net_third_channel_down) start =
     (Inl (HTTPError 503),
      \<lparr>reqs = 6,
       debug_log =
         [''Fetching ThingSpeak keys from Purple API'', ''Successfully retreived ThingSpeak keys'',
          ''Fetching feeds from ThingSpeak API'', ''Successfully retreived feeds from ThingSpeak'',
          ''Fetching feeds from ThingSpeak API'', ''Successfully retreived feeds from ThingSpeak'',
          ''Fetching feeds from ThingSpeak API'', ''Fetching feeds from ThingSpeak API'',
          ''Fetching feeds from ThingSpeak API''],
       slept = [1, 5], loaded = []\<rparr>)
   \<and> fst (main (world_example net_third_channel_down) start) = Inl (HTTPError 503)
   \<and> loaded (snd (main (world_example net_third_channel_down) start)) = loaded start"
proof -
  let ?w = "world_example net_third_channel_down"
  let ?K = "''Fetching ThingSpeak keys from Purple API''"
  let ?KS = "''Successfully retreived ThingSpeak keys''"
  let ?F = "''Fetching feeds from ThingSpeak API''"
  let ?S = "''Successfully retreived feeds from ThingSpeak''"
  let ?s1 = "\<lparr>reqs = 1, debug_log = [?K, ?KS], slept = [], loaded = []\<rparr>"
  let ?s3 = "\<lparr>reqs = 3, debug_log = [?K, ?KS, ?F, ?S, ?F, ?S], slept = [], loaded = []\<rparr>"
  let ?s6 = "\<lparr>reqs = 6, debug_log = [?K, ?KS, ?F, ?S, ?F, ?S, ?F, ?F, ?F],
              slept = [1, 5], loaded = []\<rparr>"
  let ?us = "[feed_url ?w (JInt 101) (JStr ''KA1''), feed_url ?w (JInt 201) (JStr ''KA2'')]"
  let ?u = "feed_url ?w (JInt 102) (JStr ''KB1'')"
  let ?vs = "[feed_url ?w (JInt 202) (JStr ''KB2'')]"
  have k_down: "get_keys_from_purple ?w (start\<lparr>reqs := 3\<rparr>) =
      (Inl (HTTPError 503),
       \<lparr>reqs = 6, debug_log = [?K, ?K, ?K], slept = [1, 5], loaded = []\<rparr>)"
    by (simp add: get_keys_from_purple_def retry_3 run_simps example_simps)
  have k_inc: "get_keys_from_purple (world_example net_registry_incomplete) start =
      (Inr (JObj (tl sensor_mistyped)), ?s1)"
    by (simp add: get_keys_from_purple_def retry_3 run_simps example_simps value_simps)
  have f_inc: "from_dict (JObj (tl sensor_mistyped)) = Inl TypeError"
    by (simp add: sensor_mistyped_def from_dict_def items_def dict_of_items_def setitem_def
        parameters_def init_def)
  have k: "get_keys_from_purple ?w start = (Inr (JObj sensor_example), ?s1)"
    by (simp add: get_keys_from_purple_def retry_3 run_simps example_simps value_simps)
  have u: "urls ?w thingspeak_example = ?us @ ?u # ?vs"
    by (simp add: urls_def id_key_pairs_def thingspeak_example_def)
  have c: "collect_feeds ?w ?us ?s1 = (Inr (record_x # records_y), ?s3)"
    by (simp add: get_feed_def retry_3 run_simps example_simps value_simps url_simps
        record_x_def records_y_def)
  have g: "get_feed ?w ?u ?s3 = (Inl (HTTPError 503), ?s6)"
    by (simp add: get_feed_def retry_3 run_simps example_simps value_simps url_simps)
  note first = extract_aborts_on_failure [THEN conjunct1, rule_format, OF k_down]
  note second = extract_aborts_on_failure [THEN conjunct2, THEN conjunct1, rule_format,
      OF k_inc f_inc]
  note third = extract_aborts_on_failure [THEN conjunct2, THEN conjunct2, THEN conjunct1,
      rule_format, OF k example_from_dict u c g]
  note fourth = extract_aborts_on_failure [THEN conjunct2, THEN conjunct2, THEN conjunct2,
      rule_format, OF third]
  from fourth have "fst (main ?w start) = Inl (HTTPError 503)"
    and "loaded (snd (main ?w start)) = loaded start"
    by (simp_all add: start_def)
  with first second third show ?thesis by (intro conjI)
qed

text \<open>
  Claim C9. \<open>main\<close> raises the error of \<open>extract\<close>; otherwise it loads the
  extracted batch and raises the error of the load or returns \<^verbatim>\<open>Success\<close>. The
  batch handed to the warehouse is the extracted one, and a run hands over at most one.
\<close>

theorem main_extract_then_load:
  "(extract w st = (Inl e, st1) \<longrightarrow> main w st = (Inl e, st1))
   \<and> (extract w st = (Inr batch, st1) \<longrightarrow>
        load w batch (debug (''Extracted '' @ digits (length batch) @ '' feeds successfully'') st1)
          = (Inl e, st2) \<longrightarrow>
        main w st = (Inl e, st2))
   \<and> (extract w st = (Inr batch, st1) \<longrightarrow>
        load w batch (debug (''Extracted '' @ digits (length batch) @ '' feeds successfully'') st1)
          = (Inr (), st2) \<longrightarrow>
        main w st = (Inr ''Success'', st2))
   \<and> (extract w st = (Inr batch, st1) \<longrightarrow>
        loaded (snd (main w st)) = loaded st \<or> loaded (snd (main w st)) = loaded st @ [batch])
   \<and> length (loaded (snd (main w st))) \<le> Suc (length (loaded st))"
proof -
  have once: "loaded (snd (main w st)) = loaded st \<or> loaded (snd (main w st)) = loaded st @ [b]"
    if ex: "extract w st = (Inr b, s)" for b s
  proof -
    let ?s = "debug (''Extracted '' @ digits (length b) @ '' feeds successfully'') s"
    have "loaded ?s = loaded st"
      using extract_loaded [OF ex] by (simp add: debug_def)
    moreover have "snd (main w st) = snd (load w b ?s)"
      by (simp add: main_def ex Let_def split: prod.splits sum.splits)
    ultimately show ?thesis
      using load_loaded [of w b ?s] by simp
  qed
  have bound: "length (loaded (snd (main w st))) \<le> Suc (length (loaded st))"
  proof -
    obtain x s where ex: "extract w st = (x, s)" by (cases "extract w st")
    show ?thesis
    proof (cases x)
      case (Inl err)
      with ex extract_loaded [OF ex] show ?thesis by (simp add: main_def)
    next
      case (Inr b)
      with ex once [of b s] show ?thesis by auto
    qed
  qed
  show ?thesis
    using once bound by (auto simp: main_def Let_def)
qed

theorem main_extract_then_load_witness:
  "fst (main (world_example net_third_channel_down) start) = Inl (HTTPError 503)
   \<and> fst (main world_load_fails start) = Inl GoogleAPIError
   \<and> fst (main (world_example net_example) start) = Inr ''Success''
   \<and> loaded (snd (main (world_example net_example) start))
       = loaded start @ [record_x # records_y @ [record_x]]"
proof -
  let ?K = "''Fetching ThingSpeak keys from Purple API''"
  let ?KS = "''Successfully retreived ThingSpeak keys''"
  let ?F = "''Fetching feeds from ThingSpeak API''"
  let ?S = "''Successfully retreived feeds from ThingSpeak''"
  let ?L = "[?K, ?KS, ?F, ?S, ?F, ?S, ?F, ?S, ?F, ?S, ''Extracted 4 feeds successfully'',
             ''Connecting to BigQuery'', ''Connected to BigQuery Successfully'']"
  let ?batch = "record_x # records_y @ [record_x]"
  let ?s5 = "\<lparr>reqs = 5, debug_log = [?K, ?KS, ?F, ?S, ?F, ?S, ?F, ?S, ?F, ?S],
              slept = [], loaded = []\<rparr>"
  have len: "digits (length ?batch) = ''4''"
    by (simp add: records_y_def digits.simps)
  have ok: "load (world_example net_example) ?batch
              (debug (''Extracted '' @ digits (length ?batch) @ '' feeds successfully'') ?s5) =
      (Inr (),
       \<lparr>reqs = 5,
        debug_log = ?L @ [''Loaded into BigQuery databuildtool.air_quality.raw_thingspeak successfully''],
        slept = [], loaded = [?batch]\<rparr>)"
    unfolding len by (simp add: load_def destination_def debug_def world_example_def Let_def)
  have bad: "load world_load_fails ?batch
              (debug (''Extracted '' @ digits (length ?batch) @ '' feeds successfully'') ?s5) =
      (Inl GoogleAPIError, \<lparr>reqs = 5, debug_log = ?L, slept = [], loaded = [?batch]\<rparr>)"
    unfolding len by (simp add: load_def destination_def debug_def world_load_fails_def Let_def)
  note first = main_extract_then_load [THEN conjunct1, rule_format, OF example_extract_down]
  note second = main_extract_then_load [THEN conjunct2, THEN conjunct1, rule_format,
      OF example_extract_load_fails bad]
  note third = main_extract_then_load [THEN conjunct2, THEN conjunct2, THEN conjunct1,
      rule_format, OF example_extract ok]
  from first second third show ?thesis by (simp add: start_def)
qed

end
